theory Spec2Isabelle
  imports Main "HOL-Library.Word" "HOL-Library.Sublist"
begin

unbundle bit_operations_syntax

section \<open>ollama2nix: the data model\<close>

text \<open>
  Go strings are byte sequences: \<open>string\<close> (a list of 8-bit \<open>char\<close>s). A \<open>[]byte\<close>
  is a list of 8-bit words. \<open>[]byte(s)\<close> and \<open>string(b)\<close> are \<open>map of_char\<close> and
  \<open>map char_of\<close>.
\<close>

type_synonym byte = "8 word"

text \<open>
  Go's \<open>error\<close> values, as far as this program meets them: the errors it makes itself
  with \<open>fmt.Errorf\<close> (with and without \<open>%w\<close>), the two errors of \<open>encoding/hex\<close>, and
  errors of the network and JSON libraries, which are opaque but for their message.
\<close>

datatype go_error =
    Errorf string
  | Wrapped string go_error
  | InvalidByteError byte
  | ErrLength
  | LibError string

text \<open>The structs \<open>Layer\<close> and \<open>Manifest\<close> (main.go, lines 70 to 81).\<close>

record Layer =
  Digest :: string
  MediaType :: string
  Size :: "64 word"

record Manifest =
  SchemaVersion :: "64 word"
  ManifestMediaType :: string
  Config :: Layer
  Layers :: "Layer list"

section \<open>The library functions the program calls\<close>

subsection \<open>strings\<close>

text \<open>\<open>strings.HasPrefix\<close> and \<open>strings.TrimPrefix\<close>.\<close>

definition HasPrefix :: "string \<Rightarrow> string \<Rightarrow> bool" where
  "HasPrefix s p = (length s \<ge> length p \<and> take (length p) s = p)"

definition TrimPrefix :: "string \<Rightarrow> string \<Rightarrow> string" where
  "TrimPrefix s p = (if HasPrefix s p then drop (length p) s else s)"

text \<open>
  \<open>strings.IndexByte\<close>: the index of the first occurrence of a byte, \<open>None\<close> for Go's -1.
\<close>

fun IndexByte :: "string \<Rightarrow> char \<Rightarrow> nat option" where
  "IndexByte [] c = None"
| "IndexByte (x # xs) c =
     (if x = c then Some 0 else map_option Suc (IndexByte xs c))"

text \<open>
  \<open>strings.SplitN(s, ":", 2)\<close>. The library's \<open>genSplit\<close> first lowers \<open>n\<close> to
  \<open>len(s) + 1\<close>, allocates \<open>n\<close> slots, and cuts at most \<open>n - 1\<close> times: with n = 2 that
  is one cut at the first separator, and no cut at all for the empty string.
\<close>

definition SplitN2 :: "string \<Rightarrow> char \<Rightarrow> string list" where
  "SplitN2 s sep =
     (let n = (if 2 > length s + 1 then length s + 1 else 2) in
      if n - 1 = 0 then [s]
      else (case IndexByte s sep of
              None \<Rightarrow> [s]
            | Some m \<Rightarrow> [take m s, drop (m + 1) s]))"

subsection \<open>encoding/hex\<close>

text \<open>
  \<open>reverseHexTable\<close>: the value of a hexadecimal digit of either case, 0xff for every
  other byte.
\<close>

definition reverseHexTable :: "char \<Rightarrow> byte" where
  "reverseHexTable c =
     (let n = (of_char c :: nat) in
      if 48 \<le> n \<and> n \<le> 57 then of_nat (n - 48)
      else if 97 \<le> n \<and> n \<le> 102 then of_nat (n - 97 + 10)
      else if 65 \<le> n \<and> n \<le> 70 then of_nat (n - 65 + 10)
      else 0xff)"

text \<open>
  \<open>hex.Decode\<close>: two characters at a time; an invalid character is reported before an odd
  length. The result is the bytes decoded so far together with the error, as the library
  returns \<open>(i, err)\<close>.
\<close>

fun hex_Decode :: "string \<Rightarrow> byte list \<times> go_error option" where
  "hex_Decode (p # q # rest) =
     (let a = reverseHexTable p; b = reverseHexTable q in
      if a > 0x0f then ([], Some (InvalidByteError (of_char p)))
      else if b > 0x0f then ([], Some (InvalidByteError (of_char q)))
      else (case hex_Decode rest of (bs, e) \<Rightarrow> ((push_bit 4 a OR b) # bs, e)))"
| "hex_Decode [p] =
     (if reverseHexTable p > 0x0f then ([], Some (InvalidByteError (of_char p)))
      else ([], Some ErrLength))"
| "hex_Decode [] = ([], None)"

definition hex_DecodeString :: "string \<Rightarrow> byte list \<times> go_error option" where
  "hex_DecodeString s = hex_Decode s"

subsection \<open>encoding/base64\<close>

definition encodeStd :: string where
  "encodeStd = ''ABCDEFGHIJKLMNOPQRSTUVWXYZabcdefghijklmnopqrstuvwxyz0123456789+/''"

text \<open>The alphabet lookup \<open>enc.encode[v & 0x3F]\<close> on the machine word \<open>val\<close> (a \<open>uint\<close>).\<close>

definition enc64 :: "64 word \<Rightarrow> char" where
  "enc64 v = encodeStd ! unat (v AND 0x3F)"

text \<open>
  \<open>base64.StdEncoding.EncodeToString\<close>: full groups of three bytes give four characters;
  a rest of one or two bytes gives two or three characters and padding with \<open>=\<close>.
\<close>

fun base64_Encode :: "byte list \<Rightarrow> string" where
  "base64_Encode (a # b # c # rest) =
     (let val = push_bit 16 (ucast a) OR push_bit 8 (ucast b) OR ucast c in
      enc64 (drop_bit 18 val) # enc64 (drop_bit 12 val) # enc64 (drop_bit 6 val) # enc64 val
        # base64_Encode rest)"
| "base64_Encode [a, b] =
     (let val = push_bit 16 (ucast a) OR push_bit 8 (ucast b) in
      [enc64 (drop_bit 18 val), enc64 (drop_bit 12 val), enc64 (drop_bit 6 val), CHR ''=''])"
| "base64_Encode [a] =
     (let val = push_bit 16 (ucast a) in
      [enc64 (drop_bit 18 val), enc64 (drop_bit 12 val), CHR ''='', CHR ''=''])"
| "base64_Encode [] = []"

subsection \<open>crypto/sha256\<close>

text \<open>
  SHA-256 on 32-bit words. \<open>K256\<close> and \<open>init256\<close> are the library's round constants
  \<open>_K\<close> and initial state, in decimal.
\<close>

definition K256 :: "32 word list" where
  "K256 =
     [1116352408, 1899447441, 3049323471, 3921009573, 961987163, 1508970993,
      2453635748, 2870763221, 3624381080, 310598401, 607225278, 1426881987,
      1925078388, 2162078206, 2614888103, 3248222580, 3835390401, 4022224774,
      264347078, 604807628, 770255983, 1249150122, 1555081692, 1996064986,
      2554220882, 2821834349, 2952996808, 3210313671, 3336571891, 3584528711,
      113926993, 338241895, 666307205, 773529912, 1294757372, 1396182291,
      1695183700, 1986661051, 2177026350, 2456956037, 2730485921, 2820302411,
      3259730800, 3345764771, 3516065817, 3600352804, 4094571909, 275423344,
      430227734, 506948616, 659060556, 883997877, 958139571, 1322822218,
      1537002063, 1747873779, 1955562222, 2024104815, 2227730452, 2361852424,
      2428436474, 2756734187, 3204031479, 3329325298]"

definition init256 :: "32 word list" where
  "init256 =
     [1779033703, 3144134277, 1013904242, 2773480762,
      1359893119, 2600822924, 528734635, 1541459225]"

text \<open>Big-endian packing of four bytes, and its inverse.\<close>

fun be32 :: "byte list \<Rightarrow> 32 word list" where
  "be32 (b0 # b1 # b2 # b3 # rest) =
     (push_bit 24 (ucast b0) OR push_bit 16 (ucast b1) OR push_bit 8 (ucast b2) OR ucast b3)
       # be32 rest"
| "be32 _ = []"

definition unbe32 :: "32 word \<Rightarrow> byte list" where
  "unbe32 w = [ucast (drop_bit 24 w), ucast (drop_bit 16 w), ucast (drop_bit 8 w), ucast w]"

text \<open>
  The message schedule: \<open>w[i] = t1 + w[i-7] + t2 + w[i-16]\<close> for i from 16 to 63; the
  first argument counts the words still to add.
\<close>

fun schedule256 :: "nat \<Rightarrow> 32 word list \<Rightarrow> 32 word list" where
  "schedule256 0 w = w"
| "schedule256 (Suc k) w =
     (let i = length w;
          v1 = w ! (i - 2);
          t1 = word_rotr 17 v1 XOR word_rotr 19 v1 XOR drop_bit 10 v1;
          v2 = w ! (i - 15);
          t2 = word_rotr 7 v2 XOR word_rotr 18 v2 XOR drop_bit 3 v2
      in schedule256 k (w @ [t1 + w ! (i - 7) + t2 + w ! (i - 16)]))"

text \<open>One round of the compression loop on the working variables a to h.\<close>

fun round256 :: "32 word list \<Rightarrow> 32 word \<times> 32 word \<Rightarrow> 32 word list" where
  "round256 [a, b, c, d, e, f, g, h] (k, w) =
     (let t1 = h + (word_rotr 6 e XOR word_rotr 11 e XOR word_rotr 25 e)
                 + ((e AND f) XOR (NOT e AND g)) + k + w;
          t2 = (word_rotr 2 a XOR word_rotr 13 a XOR word_rotr 22 a)
                 + ((a AND b) XOR (a AND c) XOR (b AND c))
      in [t1 + t2, a, b, c, d + t1, e, f, g])"
| "round256 st _ = st"

text \<open>\<open>blockGeneric\<close>: one 64-byte chunk after the other into the state.\<close>

definition block256 :: "32 word list \<Rightarrow> byte list \<Rightarrow> 32 word list" where
  "block256 hs chunk =
     (let w = schedule256 48 (be32 chunk) in
      map2 (+) hs (foldl round256 hs (zip K256 w)))"

fun blocks256 :: "nat \<Rightarrow> 32 word list \<Rightarrow> byte list \<Rightarrow> 32 word list" where
  "blocks256 0 hs p = hs"
| "blocks256 (Suc n) hs p = blocks256 n (block256 hs (take 64 p)) (drop 64 p)"

text \<open>
  The padding of \<open>checkSum\<close>: the byte 0x80, zero bytes up to 56 modulo 64, and the length
  in bits as eight big-endian bytes (a \<open>uint64\<close>).
\<close>

definition pad256 :: "byte list \<Rightarrow> byte list" where
  "pad256 m =
     (let len = length m;
          bits = (push_bit 3 (of_nat len) :: 64 word)
      in m @ [0x80] @ replicate ((55 + 64 - len mod 64) mod 64) 0
           @ map (\<lambda>i. ucast (drop_bit (8 * (7 - i)) bits)) [0..<8])"

text \<open>
  The digest of everything written to a \<open>sha256.New()\<close> hash: \<open>h.Sum(nil)\<close> after the
  bytes \<open>m\<close> were written.
\<close>

definition sha256_Sum :: "byte list \<Rightarrow> byte list" where
  "sha256_Sum m =
     (let p = pad256 m in
      concat (map unbe32 (blocks256 (length p div 64) init256 p)))"

subsection \<open>fmt and strconv\<close>

text \<open>The verb \<open>%d\<close> on a loop index (never negative).\<close>

function decimal :: "nat \<Rightarrow> string" where
  "decimal n =
     (if n < 10 then [char_of (48 + n)]
      else decimal (n div 10) @ [char_of (48 + n mod 10)])"
  by pat_completeness auto
termination
  by (relation "measure id") auto

declare decimal.simps [simp del]

definition lowerhex :: string where
  "lowerhex = ''0123456789abcdef''"

definition upperhex :: string where
  "upperhex = ''0123456789ABCDEF''"

text \<open>
  The verb \<open>%q\<close> (\<open>strconv.Quote\<close>), byte by byte. The quote and the backslash are
  backslashed, printable ASCII stands for itself, the control characters have their
  escapes. A byte from 0x80 on is written as \<open>\xNN\<close>, which is what the library does with a
  byte that is not valid UTF-8; valid multi-byte sequences are not modelled: the program
  quotes only the text of its URLs and its base64 hashes, which are ASCII.
\<close>

definition quoteByte :: "char \<Rightarrow> string" where
  "quoteByte c =
     (let n = (of_char c :: nat) in
      if n = 0x22 \<or> n = 0x5C then [char_of (0x5C :: nat), c]
      else if 0x20 \<le> n \<and> n \<le> 0x7E then [c]
      else if n = 7 then [char_of (0x5C :: nat), CHR ''a'']
      else if n = 8 then [char_of (0x5C :: nat), CHR ''b'']
      else if n = 12 then [char_of (0x5C :: nat), CHR ''f'']
      else if n = 10 then [char_of (0x5C :: nat), CHR ''n'']
      else if n = 13 then [char_of (0x5C :: nat), CHR ''r'']
      else if n = 9 then [char_of (0x5C :: nat), CHR ''t'']
      else if n = 11 then [char_of (0x5C :: nat), CHR ''v'']
      else [char_of (0x5C :: nat), CHR ''x'',
            lowerhex ! unat (drop_bit 4 (of_char c :: byte)),
            lowerhex ! unat ((of_char c :: byte) AND 0xF)])"

definition Quote :: "string \<Rightarrow> string" where
  "Quote s = [char_of (0x22 :: nat)] @ concat (map quoteByte s) @ [char_of (0x22 :: nat)]"

text \<open>
  The verb \<open>%#U\<close> on a rune below 256, as \<open>InvalidByteError.Error\<close> uses it:
  \<open>U+00NN\<close>, followed by the quoted character when \<open>strconv.IsPrint\<close> holds of it
  (in UTF-8: two bytes from 0x80 on).
\<close>

definition fmtSharpU :: "byte \<Rightarrow> string" where
  "fmtSharpU r =
     ''U+00'' @ [upperhex ! unat (drop_bit 4 r), upperhex ! unat (r AND 0xF)]
       @ (if (0x20 \<le> r \<and> r \<le> 0x7E) \<or> (0xA1 \<le> r \<and> r \<le> 0xFF \<and> r \<noteq> 0xAD)
          then '' '' @ [char_of (0x27 :: nat)]
                 @ (if r < 0x80 then [char_of (unat r)]
                    else [char_of (unat (0xC0 OR drop_bit 6 r)),
                          char_of (unat (0x80 OR (r AND 0x3F)))])
                 @ [char_of (0x27 :: nat)]
          else [])"

text \<open>The method \<open>Error()\<close> of an error value; \<open>%w\<close> puts the wrapped error's text in place.\<close>

fun Error :: "go_error \<Rightarrow> string" where
  "Error (Errorf msg) = msg"
| "Error (Wrapped msg err) = msg @ Error err"
| "Error (InvalidByteError b) = ''encoding/hex: invalid byte: '' @ fmtSharpU b"
| "Error ErrLength = ''encoding/hex: odd length hex string''"
| "Error (LibError msg) = msg"

subsection \<open>net/url\<close>

datatype encoding = encodePath | encodePathSegment | encodeHost

definition isAlnum :: "char \<Rightarrow> bool" where
  "isAlnum c =
     (let n = (of_char c :: nat) in
      (97 \<le> n \<and> n \<le> 122) \<or> (65 \<le> n \<and> n \<le> 90) \<or> (48 \<le> n \<and> n \<le> 57))"

text \<open>
  \<open>shouldEscape\<close>, for the three modes the program reaches: \<open>PathEscape\<close> escapes a path
  segment, \<open>URL.String\<close> escapes the host and the whole path.
\<close>

definition shouldEscape :: "char \<Rightarrow> encoding \<Rightarrow> bool" where
  "shouldEscape c mode =
     (if isAlnum c then False
      else if mode = encodeHost
              \<and> c \<in> set (''!$&()*+,;=:[]<>'' @ [char_of (0x27 :: nat), char_of (0x22 :: nat)])
      then False
      else if c \<in> set ''-_.~'' then False
      else if c \<in> set ''$&+,/:;=?@'' then
        (case mode of
           encodePath \<Rightarrow> c = CHR ''?''
         | encodePathSegment \<Rightarrow> c = CHR ''/'' \<or> c = CHR '';'' \<or> c = CHR '','' \<or> c = CHR ''?''
         | encodeHost \<Rightarrow> True)
      else True)"

definition escapeByte :: "encoding \<Rightarrow> char \<Rightarrow> string" where
  "escapeByte mode c =
     (if shouldEscape c mode
      then [CHR ''%'', upperhex ! unat (drop_bit 4 (of_char c :: byte)),
            upperhex ! unat ((of_char c :: byte) AND 15)]
      else [c])"

definition escape :: "string \<Rightarrow> encoding \<Rightarrow> string" where
  "escape s mode = concat (map (escapeByte mode) s)"

definition PathEscape :: "string \<Rightarrow> string" where
  "PathEscape s = escape s encodePathSegment"

text \<open>
  \<open>url.URL\<close> with the three fields the program sets; all others keep their zero values
  (no user, no opaque part, no raw path, no query, no fragment).
\<close>

record URL =
  Scheme :: string
  Host :: string
  Path :: string

definition EscapedPath :: "URL \<Rightarrow> string" where
  "EscapedPath u = (if Path u = ''*'' then ''*'' else escape (Path u) encodePath)"

definition URL_String :: "URL \<Rightarrow> string" where
  "URL_String u =
     (let buf1 = (if Scheme u \<noteq> [] then Scheme u @ '':'' else []);
          buf2 = buf1 @
            (if Scheme u \<noteq> [] \<or> Host u \<noteq> []
             then (if Host u \<noteq> [] \<or> Path u \<noteq> [] then ''//'' else [])
                    @ (if Host u \<noteq> [] then escape (Host u) encodeHost else [])
             else []);
          path = EscapedPath u;
          buf3 = buf2 @
            (case path of
               [] \<Rightarrow> []
             | c # _ \<Rightarrow> if c \<noteq> CHR ''/'' \<and> Host u \<noteq> [] then ''/'' else []);
          buf4 = buf3 @
            (if buf3 = [] \<and> CHR '':'' \<in> set (takeWhile (\<lambda>c. c \<noteq> CHR ''/'') path)
             then ''./'' else [])
      in buf4 @ path)"

subsection \<open>io and net/http\<close>

text \<open>
  A response body is a reader the environment controls: the chunks the network will still
  deliver, one per \<open>Read\<close> at most, and the error that ends the stream (\<open>io.EOF\<close> or a
  failure of the connection). A \<open>Read\<close> into a buffer of \<open>k\<close> bytes returns at most \<open>k\<close>
  bytes of the next chunk and leaves the rest pending.
\<close>

record body =
  pending :: "byte list list"
  final :: go_error

definition body_Read :: "nat \<Rightarrow> body \<Rightarrow> (byte list \<times> go_error option) \<times> body" where
  "body_Read k b =
     (case pending b of
        [] \<Rightarrow> (([], Some (final b)), b)
      | c # cs \<Rightarrow>
          if length c \<le> k then ((c, None), b\<lparr>pending := cs\<rparr>)
          else ((take k c, None), b\<lparr>pending := drop k c # cs\<rparr>))"

text \<open>
  \<open>io.TeeReader(r, w).Read\<close>: what is read from \<open>r\<close> is written to \<open>w\<close>. The writer
  here is the running SHA-256 hash, whose state is the bytes written to it so far.
\<close>

definition tee_Read ::
  "nat \<Rightarrow> body \<times> byte list \<Rightarrow> (byte list \<times> go_error option) \<times> body \<times> byte list" where
  "tee_Read k s =
     (case s of (b, h) \<Rightarrow>
        (case body_Read k b of
           ((p, err), b') \<Rightarrow> if length p > 0 then ((p, err), (b', h @ p)) else ((p, err), (b', h))))"

text \<open>
  A computation that reads from a reader, such as \<open>json.Decoder.Decode\<close>: it either
  is done with a result, or asks for a \<open>Read\<close> into a buffer of some size and goes on
  with what the read returned.
\<close>

datatype 'a reading =
    Done 'a
  | Read nat "byte list \<times> go_error option \<Rightarrow> 'a reading"

primrec run_tee ::
  "'a reading \<Rightarrow> body \<times> byte list \<Rightarrow> 'a \<times> body \<times> byte list" where
  "run_tee (Done x) = (\<lambda>s. (x, s))"
| "run_tee (Read k f) = (\<lambda>s. case tee_Read k s of (res, s') \<Rightarrow> run_tee (f res) s')"

text \<open>
  What the program takes from outside: \<open>http.Get\<close> on a URL (an error, or a response with
  its body; the status code is not looked at), and the JSON decoder decoding a
  \<open>Manifest\<close> from a reader.
\<close>

record env =
  http_Get :: "string \<Rightarrow> go_error + body"
  json_Decode :: "(go_error + Manifest) reading"

section \<open>The hash transcoder\<close>

text \<open>\<open>convertOllamaHashToNixHash\<close> (main.go, lines 186 to 198).\<close>

definition convertOllamaHashToNixHash :: "string \<Rightarrow> go_error + string" where
  "convertOllamaHashToNixHash hexHash =
     (let hexHash' = TrimPrefix hexHash ''sha256:'' in
      case hex_DecodeString hexHash' of
        (hashBytes, Some err) \<Rightarrow> Inl err
      | (hashBytes, None) \<Rightarrow>
          (let base64Hash = base64_Encode hashBytes in
           Inr (''sha256-'' @ base64Hash)))"

section \<open>The program\<close>

text \<open>The two flags (main.go, lines 83 and 84), after \<open>flag.Parse\<close>.\<close>

record flags =
  flagRegistry :: string
  flagModel :: string

text \<open>
  What the process does to the outside: the calls of \<open>http.Get\<close>, by URL, and the text
  written to standard output.
\<close>

record proc =
  http_calls :: "string list"
  stdout :: string

text \<open>
  The \<open>strings.Builder\<close> is the list of the strings written to it, in order;
  \<open>sb.String()\<close> is their concatenation.
\<close>

type_synonym builder = "string list"

definition WriteString :: "builder \<Rightarrow> string \<Rightarrow> builder" where
  "WriteString sb s = sb @ [s]"

definition String :: "builder \<Rightarrow> string" where
  "String sb = concat sb"

definition curlOptsList :: string where
  \<open>curlOptsList = ''    curlOptsList = ["-L" "-H" "Accept:application/octet-stream"];\<newline>''\<close>

text \<open>
  The body of the loop over the layers (main.go, lines 133 to 146), for the index \<open>i\<close>
  and the layer at it: the builder afterwards, or the error the body returns with.
\<close>

definition writeBlob :: "string \<Rightarrow> nat \<Rightarrow> Layer \<Rightarrow> builder \<Rightarrow> go_error + builder" where
  "writeBlob registry i layer sb =
     (let blobURL = \<lparr>Scheme = ''https'', Host = registry,
                     Path = ''/v2/library/mistral-nemo/blobs/'' @ PathEscape (Digest layer)\<rparr>;
          sb = WriteString sb (''  blob_'' @ decimal i @ '' = pkgs.fetchurl {\<newline>'');
          sb = WriteString sb curlOptsList;
          sb = WriteString sb (''    url = '' @ Quote (URL_String blobURL) @ '';\<newline>'')
      in case convertOllamaHashToNixHash (Digest layer) of
           Inl err \<Rightarrow> Inl (Wrapped ''failed to convert blob hash: '' err)
         | Inr blobNixHash \<Rightarrow>
             (let sb = WriteString sb (''    hash = '' @ Quote blobNixHash @ '';\<newline>'');
                  sb = WriteString sb ''  };\<newline>''
              in Inr sb))"

text \<open>
  The loop itself (main.go, lines 132 to 147): the index \<open>i\<close>, the layers still to
  write, the builder. An error of the body ends the run.
\<close>

fun writeBlobs :: "string \<Rightarrow> nat \<Rightarrow> Layer list \<Rightarrow> builder \<Rightarrow> go_error + builder" where
  "writeBlobs registry i [] sb = Inr sb"
| "writeBlobs registry i (layer # rest) sb =
     (case writeBlob registry i layer sb of
        Inl err \<Rightarrow> Inl err
      | Inr sb' \<Rightarrow> writeBlobs registry (i + 1) rest sb')"

text \<open>The two counting loops (main.go, lines 163 to 165 and 173 to 175).\<close>

function writePaths :: "nat \<Rightarrow> nat \<Rightarrow> builder \<Rightarrow> builder" where
  "writePaths i n sb =
     (if i < n then writePaths (i + 1) n (WriteString sb (''      blob_'' @ decimal i @ ''\<newline>''))
      else sb)"
  by pat_completeness auto
termination
  by (relation "measure (\<lambda>(i, n, sb). n - i)") auto

declare writePaths.simps [simp del]

function writeLinks :: "nat \<Rightarrow> nat \<Rightarrow> builder \<Rightarrow> builder" where
  "writeLinks i n sb =
     (if i < n
      then writeLinks (i + 1) n
             (WriteString sb (''      ln -s ${blob_'' @ decimal i @ ''} $out/blobs/\<newline>''))
      else sb)"
  by pat_completeness auto
termination
  by (relation "measure (\<lambda>(i, n, sb). n - i)") auto

declare writeLinks.simps [simp del]

text \<open>
  The recipe (main.go, lines 127 to 181), from the flags' registry, the parsed model and
  version, the manifest URL, the bytes the hash has seen, and the decoded manifest.
\<close>

definition buildRecipe ::
  "string \<Rightarrow> string \<Rightarrow> string \<Rightarrow> URL \<Rightarrow> byte list \<Rightarrow> Manifest \<Rightarrow> go_error + builder" where
  \<open>buildRecipe registry model version manifestURL manifestHash manifest =
     (let sb = [];
          sb = WriteString sb ''{ pkgs ? import <nixpkgs> {} }:\<newline>'';
          sb = WriteString sb ''\<newline>'';
          sb = WriteString sb ''let\<newline>'';
          sb = WriteString sb ''  # List of blob files with URLs and corresponding hashes.\<newline>''
      in case writeBlobs registry 0 (Layers manifest) sb of
           Inl err \<Rightarrow> Inl err
         | Inr sb \<Rightarrow>
     (let sb = WriteString sb ''\<newline>'';
          sb = WriteString sb ''  # Fetch the manifest file.\<newline>'';
          sb = WriteString sb ''  manifestFile = pkgs.fetchurl {\<newline>'';
          sb = WriteString sb curlOptsList;
          sb = WriteString sb (''    url = '' @ Quote (URL_String manifestURL) @ '';\<newline>'');
          base64Hash = base64_Encode (sha256_Sum manifestHash);
          sb = WriteString sb (''    hash = '' @ Quote (''sha256-'' @ base64Hash) @ '';\<newline>'');
          sb = WriteString sb ''  };\<newline>'';
          sb = WriteString sb ''in\<newline>'';
          sb = WriteString sb ''  # Use symlinkJoin to create the final symlinked structure.\<newline>'';
          sb = WriteString sb ''  pkgs.symlinkJoin {\<newline>'';
          sb = WriteString sb (''    name = '' @ [char_of (0x22 :: nat)] @ ''models''
                                 @ [char_of (0x22 :: nat)] @ '';\<newline>'');
          sb = WriteString sb ''\<newline>'';
          sb = WriteString sb ''    # Paths from both blobs and the manifest file.\<newline>'';
          sb = WriteString sb ''    paths = [\<newline>'';
          sb = writePaths 0 (length (Layers manifest)) sb;
          sb = WriteString sb ''      manifestFile\<newline>'';
          sb = WriteString sb ''    ];\<newline>'';
          sb = WriteString sb ''\<newline>'';
          sb = WriteString sb ''    # Add a postBuild step to arrange the structure.\<newline>'';
          sb = WriteString sb (''    postBuild = '' @ [char_of (0x27 :: nat), char_of (0x27 :: nat)]
                                 @ ''\<newline>'');
          sb = WriteString sb ''      # Move blob files to the blobs directory.\<newline>'';
          sb = WriteString sb ''      mkdir -p $out/blobs\<newline>'';
          sb = writeLinks 0 (length (Layers manifest)) sb;
          sb = WriteString sb ''\<newline>'';
          sb = WriteString sb ''      # Move manifest file to the appropriate directory.\<newline>'';
          sb = WriteString sb (''      mkdir -p $out/manifests/'' @ registry @ ''/'' @ model
                                 @ ''\<newline>'');
          sb = WriteString sb (''      ln -s ${manifestFile} $out/manifests/'' @ registry @ ''/''
                                 @ model @ ''/'' @ version @ ''\<newline>'');
          sb = WriteString sb (''    '' @ [char_of (0x27 :: nat), char_of (0x27 :: nat)]
                                 @ '';\<newline>'');
          sb = WriteString sb ''  }\<newline>''
      in Inr sb))\<close>

text \<open>
  The identifier parser (main.go, lines 102 to 107). \<open>SplitN\<close> with n = 2 returns one or
  two strings (lemma \<open>SplitN2_length\<close>), so index 0 is in range.
\<close>

definition parseModel :: "string \<Rightarrow> string \<times> string" where
  "parseModel ident =
     (let modelVersion = SplitN2 ident (CHR '':'');
          model = modelVersion ! 0;
          version = (if length modelVersion > 1 then modelVersion ! 1 else ''latest'')
      in (model, version))"

definition manifestURL_of :: "string \<Rightarrow> string \<Rightarrow> string \<Rightarrow> URL" where
  "manifestURL_of registry model version =
     \<lparr>Scheme = ''https'', Host = registry,
      Path = ''/v2/library/'' @ PathEscape model @ ''/manifests/'' @ PathEscape version\<rparr>"

text \<open>
  \<open>run\<close> (main.go, lines 94 to 184). The logger writes to standard error, and its
  only call is at debug level, below the handler's default level: nothing of it is
  modelled, nor is the deferred closing of the response body. The result is the error
  (\<open>None\<close> for \<open>nil\<close>) and the process afterwards.
\<close>

definition run :: "flags \<Rightarrow> env \<Rightarrow> proc \<Rightarrow> go_error option \<times> proc" where
  "run fl ev p =
     (if flagRegistry fl = [] then (Some (Errorf ''registry is required''), p)
      else if flagModel fl = [] then (Some (Errorf ''model is required''), p)
      else
       (case parseModel (flagModel fl) of (model, version) \<Rightarrow>
        (let manifestURL = manifestURL_of (flagRegistry fl) model version;
             p = p\<lparr>http_calls := http_calls p @ [URL_String manifestURL]\<rparr>
         in case http_Get ev (URL_String manifestURL) of
              Inl err \<Rightarrow> (Some (Wrapped ''failed to download manifest: '' err), p)
            | Inr resp_Body \<Rightarrow>
               (case run_tee (json_Decode ev) (resp_Body, []) of
                  (Inl err, rest) \<Rightarrow> (Some (Wrapped ''failed to decode manifest: '' err), p)
                | (Inr manifest, rest, manifestHash) \<Rightarrow>
                   (case buildRecipe (flagRegistry fl) model version manifestURL
                           manifestHash manifest of
                      Inl err \<Rightarrow> (Some err, p)
                    | Inr sb \<Rightarrow> (None, p\<lparr>stdout := stdout p @ String sb @ ''\<newline>''\<rparr>))))))"

text \<open>\<open>main\<close> (main.go, lines 86 to 92): the exit code and the process afterwards.\<close>

definition main :: "flags \<Rightarrow> env \<Rightarrow> proc \<Rightarrow> nat \<times> proc" where
  "main fl ev p =
     (case run fl ev p of
        (Some err, p') \<Rightarrow> (1, p'\<lparr>stdout := stdout p' @ Error err @ ''\<newline>''\<rparr>)
      | (None, p') \<Rightarrow> (0, p'))"

section \<open>Notions the properties are stated with\<close>

subsection \<open>Hexadecimal text\<close>

text \<open>
  A hexadecimal digit, its value, and the bytes a string of digit pairs stands for: the
  reading of hexadecimal that the transcoder is measured against.
\<close>

definition isHexDigit :: "char \<Rightarrow> bool" where
  "isHexDigit c = (c \<in> set ''0123456789abcdefABCDEF'')"

definition hexDigitValue :: "char \<Rightarrow> nat" where
  "hexDigitValue c =
     (case IndexByte ''0123456789abcdef'' c of
        Some n \<Rightarrow> n
      | None \<Rightarrow> (case IndexByte ''0123456789ABCDEF'' c of Some n \<Rightarrow> n | None \<Rightarrow> 0))"

fun hexBytes :: "string \<Rightarrow> byte list" where
  "hexBytes (p # q # rest) = of_nat (16 * hexDigitValue p + hexDigitValue q) # hexBytes rest"
| "hexBytes _ = []"

text \<open>\<open>hex.EncodeToString\<close> and \<open>strings.ToLower\<close> (on ASCII), for the round trip.\<close>

definition hex_EncodeToString :: "byte list \<Rightarrow> string" where
  "hex_EncodeToString bs =
     concat (map (\<lambda>v. [lowerhex ! unat (drop_bit 4 v), lowerhex ! unat (v AND 0x0f)]) bs)"

definition toLowerByte :: "char \<Rightarrow> char" where
  "toLowerByte c =
     (let n = (of_char c :: nat) in if 65 \<le> n \<and> n \<le> 90 then char_of (n + 32) else c)"

definition ToLower :: "string \<Rightarrow> string" where
  "ToLower s = map toLowerByte s"


text \<open>
  The digest string without one leading \<open>sha256:\<close>, when it has one.
\<close>

definition payload :: "string \<Rightarrow> string" where
  "payload s = (if prefix ''sha256:'' s then drop (length ''sha256:'') s else s)"

definition validHex :: "string \<Rightarrow> bool" where
  "validHex s = ((\<forall>c\<in>set s. isHexDigit c) \<and> even (length s))"

subsection \<open>Base64 decoding\<close>

text \<open>
  Standard padded base64, read back: four characters of the alphabet give three bytes; a
  last group ending in one or two \<open>=\<close> gives two bytes or one.
\<close>

definition dec64 :: "char \<Rightarrow> 64 word option" where
  "dec64 c = map_option of_nat (IndexByte encodeStd c)"

fun sextets :: "string \<Rightarrow> 64 word option" where
  "sextets [] = Some 0"
| "sextets (c # cs) =
     (case dec64 c of
        None \<Rightarrow> None
      | Some v \<Rightarrow> map_option (\<lambda>r. push_bit (6 * length cs) v OR r) (sextets cs))"

fun base64_Decode :: "string \<Rightarrow> byte list option" where
  "base64_Decode [] = Some []"
| "base64_Decode (c0 # c1 # c2 # c3 # rest) =
     (if rest = [] \<and> c2 = CHR ''='' \<and> c3 = CHR ''=''
      then map_option (\<lambda>v. [ucast (drop_bit 16 v)]) (sextets [c0, c1, CHR ''A'', CHR ''A''])
      else if rest = [] \<and> c3 = CHR ''=''
      then map_option (\<lambda>v. [ucast (drop_bit 16 v), ucast (drop_bit 8 v)])
             (sextets [c0, c1, c2, CHR ''A''])
      else (case sextets [c0, c1, c2, c3] of
              None \<Rightarrow> None
            | Some v \<Rightarrow>
                map_option (\<lambda>bs. ucast (drop_bit 16 v) # ucast (drop_bit 8 v) # ucast v # bs)
                  (base64_Decode rest)))"
| "base64_Decode _ = None"


subsection \<open>The recipe, piece by piece\<close>

text \<open>
  The lines the builder receives, named: the opening line of a blob's fetch declaration,
  of the manifest's, a URL line and a hash line, a line of the paths list and a line of the
  symlink script; then the blocks made of them.
\<close>

definition blobDecl :: "nat \<Rightarrow> string" where
  "blobDecl i = ''  blob_'' @ decimal i @ '' = pkgs.fetchurl {\<newline>''"

definition manifestDecl :: string where
  "manifestDecl = ''  manifestFile = pkgs.fetchurl {\<newline>''"

definition urlLine :: "string \<Rightarrow> string" where
  "urlLine u = ''    url = '' @ Quote u @ '';\<newline>''"

definition hashLine :: "string \<Rightarrow> string" where
  "hashLine h = ''    hash = '' @ Quote h @ '';\<newline>''"

definition pathLine :: "nat \<Rightarrow> string" where
  "pathLine i = ''      blob_'' @ decimal i @ ''\<newline>''"

definition linkLine :: "nat \<Rightarrow> string" where
  "linkLine i = ''      ln -s ${blob_'' @ decimal i @ ''} $out/blobs/\<newline>''"

definition blobURL_of :: "string \<Rightarrow> string \<Rightarrow> string \<Rightarrow> URL" where
  "blobURL_of registry name digest =
     \<lparr>Scheme = ''https'', Host = registry,
      Path = ''/v2/library/'' @ name @ ''/blobs/'' @ PathEscape digest\<rparr>"

definition blobBlock :: "string \<Rightarrow> nat \<Rightarrow> Layer \<Rightarrow> string list" where
  "blobBlock registry i layer =
     [blobDecl i, curlOptsList,
      urlLine (URL_String (blobURL_of registry ''mistral-nemo'' (Digest layer))),
      hashLine (''sha256-'' @ base64_Encode (hexBytes (payload (Digest layer)))),
      ''  };\<newline>'']"

definition recipeHead :: "string list" where
  "recipeHead =
     [''{ pkgs ? import <nixpkgs> {} }:\<newline>'', ''\<newline>'', ''let\<newline>'',
      ''  # List of blob files with URLs and corresponding hashes.\<newline>'']"

definition manifestBlockLines :: "URL \<Rightarrow> byte list \<Rightarrow> string list" where
  "manifestBlockLines manifestURL hashed =
     [manifestDecl, curlOptsList, urlLine (URL_String manifestURL),
      hashLine (''sha256-'' @ base64_Encode (sha256_Sum hashed)), ''  };\<newline>'']"

definition joinOpen :: "string list" where
  "joinOpen =
     [''in\<newline>'', ''  # Use symlinkJoin to create the final symlinked structure.\<newline>'',
      ''  pkgs.symlinkJoin {\<newline>'',
      ''    name = '' @ [char_of (0x22 :: nat)] @ ''models'' @ [char_of (0x22 :: nat)] @ '';\<newline>'',
      ''\<newline>'', ''    # Paths from both blobs and the manifest file.\<newline>'',
      ''    paths = [\<newline>'']"

definition scriptOpen :: "string list" where
  "scriptOpen =
     [''    ];\<newline>'', ''\<newline>'', ''    # Add a postBuild step to arrange the structure.\<newline>'',
      ''    postBuild = '' @ [char_of (0x27 :: nat), char_of (0x27 :: nat)] @ ''\<newline>'',
      ''      # Move blob files to the blobs directory.\<newline>'',
      ''      mkdir -p $out/blobs\<newline>'']"

definition recipeTail :: "string \<Rightarrow> string \<Rightarrow> string \<Rightarrow> string list" where
  "recipeTail registry model version =
     [''\<newline>'', ''      # Move manifest file to the appropriate directory.\<newline>'',
      ''      mkdir -p $out/manifests/'' @ registry @ ''/'' @ model @ ''\<newline>'',
      ''      ln -s ${manifestFile} $out/manifests/'' @ registry @ ''/'' @ model @ ''/''
        @ version @ ''\<newline>'',
      ''    '' @ [char_of (0x27 :: nat), char_of (0x27 :: nat)] @ '';\<newline>'',
      ''  }\<newline>'']"

text \<open>The recipe as one expression: what a run with valid digests builds.\<close>

definition recipeLines ::
  "string \<Rightarrow> string \<Rightarrow> string \<Rightarrow> URL \<Rightarrow> byte list \<Rightarrow> Layer list \<Rightarrow> string list" where
  "recipeLines registry model version manifestURL hashed layers =
     recipeHead
     @ concat (map (\<lambda>i. blobBlock registry i (layers ! i)) [0..<length layers])
     @ [''\<newline>'', ''  # Fetch the manifest file.\<newline>'']
     @ manifestBlockLines manifestURL hashed
     @ joinOpen
     @ map pathLine [0..<length layers] @ [''      manifestFile\<newline>'']
     @ scriptOpen
     @ map linkLine [0..<length layers]
     @ recipeTail registry model version"

subsection \<open>Runs\<close>

text \<open>
  The manifest URL of a run; what a run has in hand once the manifest is decoded (the
  response body, the manifest, the bytes the hash has seen, the body afterwards; \<open>None\<close>
  when the run ends before that); and the process after the call of \<open>http.Get\<close>.
\<close>

definition manifestURL_for :: "flags \<Rightarrow> URL" where
  "manifestURL_for fl =
     manifestURL_of (flagRegistry fl) (fst (parseModel (flagModel fl)))
       (snd (parseModel (flagModel fl)))"

definition fetched :: "flags \<Rightarrow> env \<Rightarrow> (body \<times> Manifest \<times> byte list \<times> body) option" where
  "fetched fl ev =
     (if flagRegistry fl = [] \<or> flagModel fl = [] then None
      else (case http_Get ev (URL_String (manifestURL_for fl)) of
              Inl err \<Rightarrow> None
            | Inr resp \<Rightarrow>
                (case run_tee (json_Decode ev) (resp, []) of
                   (Inl err, rest, hashed) \<Rightarrow> None
                 | (Inr m, rest, hashed) \<Rightarrow> Some (resp, m, hashed, rest))))"

definition called :: "flags \<Rightarrow> proc \<Rightarrow> proc" where
  "called fl p = p\<lparr>http_calls := http_calls p @ [URL_String (manifestURL_for fl)]\<rparr>"

subsection \<open>Reading the recipe\<close>

text \<open>
  In the builder of a run: the opening lines of blob fetch declarations, the lines of the
  symlink script that name a blob, the lines of the paths list (those between
  \<open>paths = [\<close> and \<open>];\<close>), and the five lines of the manifest's fetch declaration.
\<close>

definition isBlobDecl :: "string \<Rightarrow> bool" where
  "isBlobDecl c = (prefix ''  blob_'' c \<and> suffix '' = pkgs.fetchurl {\<newline>'' c)"

definition isBlobLink :: "string \<Rightarrow> bool" where
  "isBlobLink c = prefix ''      ln -s ${blob_'' c"

definition pathsList :: "string list \<Rightarrow> string list" where
  "pathsList sb =
     takeWhile (\<lambda>c. c \<noteq> ''    ];\<newline>'') (tl (dropWhile (\<lambda>c. c \<noteq> ''    paths = [\<newline>'') sb))"

definition manifestBlock :: "string list \<Rightarrow> string list" where
  "manifestBlock sb = take 5 (dropWhile (\<lambda>c. c \<noteq> manifestDecl) sb)"

subsection \<open>Example worlds\<close>

text \<open>
  For concrete runs: a process that has done nothing yet; a response body that arrives
  in one piece; a decoder that asks for one read of 512 bytes and returns a given manifest;
  an environment that serves a given text for every URL and decodes it to a given manifest;
  and manifests with given layer digests.
\<close>

definition fresh :: proc where
  "fresh = \<lparr>http_calls = [], stdout = []\<rparr>"

definition body_of :: "string \<Rightarrow> body" where
  "body_of s = \<lparr>pending = [map of_char s], final = LibError ''EOF''\<rparr>"

definition decoder_returning :: "Manifest \<Rightarrow> (go_error + Manifest) reading" where
  "decoder_returning m = Read 512 (\<lambda>res. Done (Inr m))"

definition serving :: "string \<Rightarrow> Manifest \<Rightarrow> env" where
  "serving s m = \<lparr>http_Get = (\<lambda>url. Inr (body_of s)), json_Decode = decoder_returning m\<rparr>"

text \<open>The same, with the response body arriving in several pieces.\<close>

definition serving_pieces :: "string list \<Rightarrow> Manifest \<Rightarrow> env" where
  "serving_pieces ss m =
     \<lparr>http_Get = (\<lambda>url. Inr \<lparr>pending = map (map of_char) ss, final = LibError ''EOF''\<rparr>),
      json_Decode = decoder_returning m\<rparr>"

definition layer_of :: "string \<Rightarrow> Layer" where
  "layer_of d = \<lparr>Digest = d, MediaType = ''application/vnd.ollama.image.model'', Size = 30\<rparr>"

definition manifest_of :: "string list \<Rightarrow> Manifest" where
  "manifest_of ds =
     \<lparr>SchemaVersion = 2,
      ManifestMediaType = ''application/vnd.docker.distribution.manifest.v2+json'',
      Config = \<lparr>Digest = ''sha256:65d37de20e5951c7434ad4230c51a4d5be99b8cb7407d2135074d82c40b44b45'',
                MediaType = ''application/vnd.docker.container.image.v1+json'', Size = 486\<rparr>,
      Layers = map layer_of ds\<rparr>"

definition short_json :: string where
  \<open>short_json = ''{"schemaVersion":2,"layers":[{"digest":"sha256:ab"},{"digest":""}]}''\<close>

definition empty_manifest :: Manifest where
  "empty_manifest =
     \<lparr>SchemaVersion = 0, ManifestMediaType = [],
      Config = \<lparr>Digest = [], MediaType = [], Size = 0\<rparr>, Layers = []\<rparr>"

definition one_json :: string where
  \<open>one_json = ''{"layers":[{"digest":"sha256:b559938ab7a0392fc9ea9675b82280f2a15669ec3e0e0fc491c9cb0a7681cf94"}]}''\<close>

subsection \<open>Text\<close>

text \<open>
  ASCII characters; the lines of a text (split at line feeds, a last unterminated line
  included when it is not empty); and a string that is one line: it ends in a line feed
  and has no other.
\<close>

definition isASCII :: "char \<Rightarrow> bool" where
  "isASCII c = ((of_char c :: nat) < 128)"

fun lines_from :: "string \<Rightarrow> string \<Rightarrow> string list" where
  "lines_from cur [] = (if cur = [] then [] else [cur])"
| "lines_from cur (c # s) =
     (if c = CHR ''\<newline>'' then cur # lines_from [] s else lines_from (cur @ [c]) s)"

definition lines_of :: "string \<Rightarrow> string list" where
  "lines_of s = lines_from [] s"

definition oneLine :: "string \<Rightarrow> bool" where
  "oneLine c = (c \<noteq> [] \<and> last c = CHR ''\<newline>'' \<and> CHR ''\<newline>'' \<notin> set (butlast c))"

section \<open>The library functions: facts\<close>

lemma hex_codes:
  "\<forall>n\<in>set [48, 49, 50, 51, 52, 53, 54, 55, 56, 57, 97, 98, 99, 100, 101, 102,
      65, 66, 67, 68, 69, 70 :: nat]. isHexDigit (char_of n)"
  by code_simp

lemma hex_digits_codes:
  "\<forall>c\<in>set ''0123456789abcdefABCDEF''.
     (let n = (of_char c :: nat) in
      (48 \<le> n \<and> n \<le> 57) \<or> (97 \<le> n \<and> n \<le> 102) \<or> (65 \<le> n \<and> n \<le> 70))"
  by code_simp

lemma isHexDigit_iff:
  "isHexDigit c \<longleftrightarrow>
     (let n = (of_char c :: nat) in
      (48 \<le> n \<and> n \<le> 57) \<or> (97 \<le> n \<and> n \<le> 102) \<or> (65 \<le> n \<and> n \<le> 70))"
proof
  assume "isHexDigit c"
  then show "let n = (of_char c :: nat) in
      (48 \<le> n \<and> n \<le> 57) \<or> (97 \<le> n \<and> n \<le> 102) \<or> (65 \<le> n \<and> n \<le> 70)"
    using hex_digits_codes unfolding isHexDigit_def by blast
next
  define n where "n = (of_char c :: nat)"
  have c: "c = char_of n" by (simp add: n_def)
  assume "let n = (of_char c :: nat) in
      (48 \<le> n \<and> n \<le> 57) \<or> (97 \<le> n \<and> n \<le> 102) \<or> (65 \<le> n \<and> n \<le> 70)"
  then have "(48 \<le> n \<and> n \<le> 57) \<or> (97 \<le> n \<and> n \<le> 102) \<or> (65 \<le> n \<and> n \<le> 70)"
    by (simp add: n_def Let_def)
  then have "n = 48 \<or> n = 49 \<or> n = 50 \<or> n = 51 \<or> n = 52 \<or> n = 53 \<or> n = 54 \<or> n = 55
      \<or> n = 56 \<or> n = 57 \<or> n = 97 \<or> n = 98 \<or> n = 99 \<or> n = 100 \<or> n = 101 \<or> n = 102
      \<or> n = 65 \<or> n = 66 \<or> n = 67 \<or> n = 68 \<or> n = 69 \<or> n = 70"
    by arith
  then have "n \<in> set [48, 49, 50, 51, 52, 53, 54, 55, 56, 57, 97, 98, 99, 100, 101, 102,
      65, 66, 67, 68, 69, 70 :: nat]"
    by simp
  with hex_codes show "isHexDigit c" unfolding c by blast
qed

lemma hex_digit_table:
  "\<forall>c\<in>set ''0123456789abcdefABCDEF''.
     reverseHexTable c \<le> 0x0f \<and> reverseHexTable c = of_nat (hexDigitValue c)
       \<and> hexDigitValue c < 16 \<and> lowerhex ! unat (reverseHexTable c) = toLowerByte c"
  by code_simp

lemma reverseHexTable_hex: "isHexDigit c \<Longrightarrow> reverseHexTable c \<le> 0x0f"
  using hex_digit_table unfolding isHexDigit_def by blast

lemma reverseHexTable_value:
  "isHexDigit c \<Longrightarrow> reverseHexTable c = of_nat (hexDigitValue c)"
  using hex_digit_table unfolding isHexDigit_def by blast

lemma hex_encode_digit:
  "isHexDigit c \<Longrightarrow> lowerhex ! unat (reverseHexTable c) = toLowerByte c"
  using hex_digit_table unfolding isHexDigit_def by blast

lemma reverseHexTable_nonhex: "\<not> isHexDigit c \<Longrightarrow> reverseHexTable c = 0xff"
  by (auto simp: isHexDigit_iff reverseHexTable_def Let_def)

lemma reverseHexTable_gt: "reverseHexTable c > 0x0f \<longleftrightarrow> \<not> isHexDigit c"
proof (cases "isHexDigit c")
  case True
  then show ?thesis using reverseHexTable_hex[of c] by (simp add: not_less)
next
  case False
  then show ?thesis by (simp add: reverseHexTable_nonhex)
qed

lemma nibble_bits: "(a::byte) \<le> 0x0f \<Longrightarrow> bit a n \<Longrightarrow> n < 4"
proof -
  assume a: "a \<le> 0x0f" and b: "bit a n"
  have "a < 2 ^ 4" using a by (simp add: word_le_nat_alt word_less_nat_alt)
  then have "a AND mask 4 = a" by (rule less_mask_eq)
  then have "bit (a AND mask 4) n" using b by simp
  then show "n < 4" by (simp add: bit_simps)
qed

lemma nib1: "a \<le> 0x0f \<Longrightarrow> b \<le> 0x0f \<Longrightarrow> drop_bit 4 (push_bit 4 a OR b) = (a::byte)"
  by (rule bit_eqI) (auto simp: bit_simps dest: nibble_bits bit_imp_le_length)

lemma nib2: "a \<le> 0x0f \<Longrightarrow> b \<le> 0x0f \<Longrightarrow> (push_bit 4 a OR b) AND 0x0f = (b::byte)"
proof -
  assume a: "a \<le> 0x0f" and b: "b \<le> 0x0f"
  have m: "(0x0f :: byte) = mask 4" by (simp add: mask_eq_exp_minus_1)
  show ?thesis unfolding m
    by (rule bit_eqI) (auto simp: bit_simps dest: nibble_bits[OF b])
qed

lemma nib_add: "a \<le> 0x0f \<Longrightarrow> b \<le> 0x0f \<Longrightarrow> push_bit 4 a OR b = 16 * a + (b::byte)"
proof -
  assume a: "a \<le> 0x0f" and b: "b \<le> 0x0f"
  have "push_bit 4 a + b = push_bit 4 a OR b"
    by (rule disjunctive_add_eq_or, rule bit_eqI) (auto simp: bit_simps dest: nibble_bits[OF b])
  then show ?thesis by (simp add: push_bit_eq_mult mult.commute)
qed

lemma hex_Decode_pair:
  "hex_Decode (p # q # rest) =
     (if \<not> isHexDigit p then ([], Some (InvalidByteError (of_char p)))
      else if \<not> isHexDigit q then ([], Some (InvalidByteError (of_char q)))
      else ((push_bit 4 (reverseHexTable p) OR reverseHexTable q) # fst (hex_Decode rest),
            snd (hex_Decode rest)))"
  by (simp add: Let_def reverseHexTable_gt split: prod.splits)

lemma hex_Decode_single:
  "hex_Decode [p] =
     (if \<not> isHexDigit p then ([], Some (InvalidByteError (of_char p))) else ([], Some ErrLength))"
  by (simp add: reverseHexTable_gt)

lemma pairs_induct:
  assumes "P []" and "\<And>p. P [p]" and "\<And>p q rest. P rest \<Longrightarrow> P (p # q # rest)"
  shows "P s"
  using assms by (induction_schema) (pat_completeness, lexicographic_order)

lemma hex_Decode_error_iff:
  "snd (hex_Decode s) \<noteq> None \<longleftrightarrow> (\<exists>c\<in>set s. \<not> isHexDigit c) \<or> odd (length s)"
proof (induction s rule: pairs_induct)
  case 1
  show ?case by simp
next
  case (2 p)
  show ?case by (simp add: hex_Decode_single)
next
  case (3 p q rest)
  then show ?case by (auto simp add: hex_Decode_pair simp del: hex_Decode.simps)
qed

lemma hex_Decode_bytes:
  "snd (hex_Decode s) = None \<Longrightarrow> fst (hex_Decode s) = hexBytes s"
proof (induction s rule: pairs_induct)
  case 1
  show ?case by simp
next
  case (2 p)
  then show ?case by (simp add: hex_Decode_single split: if_splits)
next
  case (3 p q rest)
  from "3.prems" have hp: "isHexDigit p" and hq: "isHexDigit q"
    and r: "snd (hex_Decode rest) = None"
    by (auto simp add: hex_Decode_pair simp del: hex_Decode.simps split: if_splits)
  have ap: "reverseHexTable p \<le> 0x0f" and aq: "reverseHexTable q \<le> 0x0f"
    using hp hq by (simp_all add: reverseHexTable_hex)
  have "push_bit 4 (reverseHexTable p) OR reverseHexTable q
      = of_nat (16 * hexDigitValue p + hexDigitValue q)"
    using nib_add[OF ap aq] reverseHexTable_value[OF hp] reverseHexTable_value[OF hq]
    by simp
  with "3.IH"[OF r] hp hq show ?case
    by (simp add: hex_Decode_pair del: hex_Decode.simps)
qed

lemma hex_roundtrip:
  "snd (hex_Decode s) = None \<Longrightarrow> hex_EncodeToString (fst (hex_Decode s)) = ToLower s"
proof (induction s rule: pairs_induct)
  case 1
  show ?case by (simp add: hex_EncodeToString_def ToLower_def)
next
  case (2 p)
  then show ?case by (simp add: hex_Decode_single split: if_splits)
next
  case (3 p q rest)
  from "3.prems" have hp: "isHexDigit p" and hq: "isHexDigit q"
    and r: "snd (hex_Decode rest) = None"
    by (auto simp add: hex_Decode_pair simp del: hex_Decode.simps split: if_splits)
  have ap: "reverseHexTable p \<le> 0x0f" and aq: "reverseHexTable q \<le> 0x0f"
    using hp hq by (simp_all add: reverseHexTable_hex)
  define v where "v = push_bit 4 (reverseHexTable p) OR reverseHexTable q"
  have v: "drop_bit 4 v = reverseHexTable p" "v AND 0x0f = reverseHexTable q"
    unfolding v_def using nib1[OF ap aq] nib2[OF ap aq] by simp_all
  have d: "hex_Decode (p # q # rest) = (v # fst (hex_Decode rest), None)"
    using hp hq r by (simp add: hex_Decode_pair v_def del: hex_Decode.simps)
  show ?case
    unfolding d using "3.IH"[OF r] v hex_encode_digit[OF hp] hex_encode_digit[OF hq]
    by (simp add: hex_EncodeToString_def ToLower_def)
qed

lemma IndexByte_nth:
  "distinct xs \<Longrightarrow> n < length xs \<Longrightarrow> IndexByte xs (xs ! n) = Some n"
proof (induction xs arbitrary: n)
  case Nil
  then show ?case by simp
next
  case (Cons x xs)
  show ?case
  proof (cases n)
    case 0
    then show ?thesis by simp
  next
    case (Suc m)
    with Cons.prems have "xs ! m \<noteq> x" "m < length xs" "distinct xs" by auto
    with Cons.IH[of m] Suc show ?thesis by simp
  qed
qed

lemma distinct_encodeStd: "distinct encodeStd"
  by (simp add: encodeStd_def)

lemma length_encodeStd: "length encodeStd = 64"
  by (simp add: encodeStd_def)

lemma unat_and_63: "unat ((v :: 64 word) AND 0x3F) < 64"
proof -
  have "unat (v AND 0x3F) \<le> unat (0x3F :: 64 word)"
    by (rule word_and_le1 [THEN word_le_nat_alt [THEN iffD1]])
  then show ?thesis by simp
qed

lemma dec64_enc64: "dec64 (enc64 v) = Some (v AND 0x3F)"
  by (simp add: dec64_def enc64_def IndexByte_nth distinct_encodeStd length_encodeStd unat_and_63)

lemma enc64_in: "enc64 v \<in> set encodeStd"
  by (simp add: enc64_def length_encodeStd unat_and_63)

lemma enc64_not_pad: "enc64 v \<noteq> CHR ''=''"
proof
  assume "enc64 v = CHR ''=''"
  with enc64_in[of v] have "CHR ''='' \<in> set encodeStd" by simp
  then show False by (simp add: encodeStd_def)
qed

lemma dec64_A: "dec64 CHR ''A'' = Some 0"
  by (simp add: dec64_def encodeStd_def)

lemma sextet_step:
  "push_bit k (drop_bit k w AND mask 6) OR take_bit k w = take_bit (k + 6) (w :: 64 word)"
  by (rule bit_eqI) (auto simp: bit_simps)

lemma byte_high: "8 \<le> n \<Longrightarrow> bit (w::byte) n = False"
  by (auto dest: bit_imp_le_length)

lemma bytes3:
  fixes a b c :: byte
  defines "val \<equiv> push_bit 16 (ucast a) OR push_bit 8 (ucast b) OR (ucast c :: 64 word)"
  shows "ucast (drop_bit 16 val) = a" "ucast (drop_bit 8 val) = b" "ucast val = c"
  unfolding val_def
  by (rule bit_eqI; simp add: bit_simps byte_high; auto dest: bit_imp_le_length)+

lemma val24:
  fixes a b c :: byte
  shows "take_bit 24 (push_bit 16 (ucast a) OR push_bit 8 (ucast b) OR (ucast c :: 64 word))
    = push_bit 16 (ucast a) OR push_bit 8 (ucast b) OR (ucast c :: 64 word)"
  by (rule bit_eqI; simp add: bit_simps byte_high; auto dest: bit_imp_le_length)

lemma quantum3:
  fixes a b c :: byte
  defines "val \<equiv> push_bit 16 (ucast a) OR push_bit 8 (ucast b) OR (ucast c :: 64 word)"
  shows "push_bit 18 (drop_bit 18 val AND 0x3F) OR (push_bit 12 (drop_bit 12 val AND 0x3F)
           OR (push_bit 6 (drop_bit 6 val AND 0x3F) OR (val AND 0x3F))) = val"
proof -
  have m: "(0x3F :: 64 word) = mask 6" by (simp add: mask_eq_exp_minus_1)
  have t: "val AND mask 6 = take_bit 6 val" by (simp add: take_bit_eq_mask)
  have "push_bit 18 (drop_bit 18 val AND mask 6) OR (push_bit 12 (drop_bit 12 val AND mask 6)
           OR (push_bit 6 (drop_bit 6 val AND mask 6) OR take_bit 6 val)) = take_bit 24 val"
    using sextet_step[of 6 val] sextet_step[of 12 val] sextet_step[of 18 val] by simp
  also have "\<dots> = val" unfolding val_def by (rule val24)
  finally show ?thesis unfolding m t .
qed

lemma sextets4:
  "sextets [enc64 v0, enc64 v1, enc64 v2, enc64 v3] =
     Some (push_bit 18 (v0 AND 0x3F) OR (push_bit 12 (v1 AND 0x3F)
            OR (push_bit 6 (v2 AND 0x3F) OR (v3 AND 0x3F))))"
  by (simp add: dec64_enc64)

lemma sextets3:
  "sextets [enc64 v0, enc64 v1, enc64 v2, CHR ''A''] =
     Some (push_bit 18 (v0 AND 0x3F) OR (push_bit 12 (v1 AND 0x3F)
            OR (push_bit 6 (v2 AND 0x3F) OR 0)))"
  by (simp add: dec64_enc64 dec64_A)

lemma sextets2:
  "sextets [enc64 v0, enc64 v1, CHR ''A'', CHR ''A''] =
     Some (push_bit 18 (v0 AND 0x3F) OR (push_bit 12 (v1 AND 0x3F) OR 0))"
  by (simp add: dec64_enc64 dec64_A)

lemma low6_zero2:
  fixes a b :: byte
  shows "(push_bit 16 (ucast a) OR push_bit 8 (ucast b) :: 64 word) AND 0x3F = 0"
proof -
  have m: "(0x3F :: 64 word) = mask 6" by (simp add: mask_eq_exp_minus_1)
  show ?thesis unfolding m by (rule bit_eqI) (auto simp: bit_simps)
qed

lemma low12_zero1:
  fixes a :: byte
  shows "drop_bit 6 (push_bit 16 (ucast a) :: 64 word) AND 0x3F = 0"
    "(push_bit 16 (ucast a) :: 64 word) AND 0x3F = 0"
proof -
  have m: "(0x3F :: 64 word) = mask 6" by (simp add: mask_eq_exp_minus_1)
  show "drop_bit 6 (push_bit 16 (ucast a) :: 64 word) AND 0x3F = 0"
    unfolding m by (rule bit_eqI) (auto simp: bit_simps)
  show "(push_bit 16 (ucast a) :: 64 word) AND 0x3F = 0"
    unfolding m by (rule bit_eqI) (auto simp: bit_simps)
qed

lemma decode_group3:
  fixes a b c :: byte
  defines "val \<equiv> push_bit 16 (ucast a) OR push_bit 8 (ucast b) OR (ucast c :: 64 word)"
  shows "sextets [enc64 (drop_bit 18 val), enc64 (drop_bit 12 val), enc64 (drop_bit 6 val),
            enc64 val] = Some val"
  unfolding sextets4 using quantum3[of a b c] by (simp add: val_def)

lemma decode_group2:
  fixes a b :: byte
  defines "val \<equiv> push_bit 16 (ucast a) OR (push_bit 8 (ucast b) :: 64 word)"
  shows "sextets [enc64 (drop_bit 18 val), enc64 (drop_bit 12 val), enc64 (drop_bit 6 val),
            CHR ''A''] = Some val"
  unfolding sextets3 using quantum3[of a b 0] low6_zero2[of a b] by (simp add: val_def)

lemma decode_group1:
  fixes a :: byte
  defines "val \<equiv> (push_bit 16 (ucast a) :: 64 word)"
  shows "sextets [enc64 (drop_bit 18 val), enc64 (drop_bit 12 val), CHR ''A'', CHR ''A'']
           = Some val"
  unfolding sextets2 using quantum3[of a 0 0] low12_zero1[of a] by (simp add: val_def)

lemma base64_roundtrip: "base64_Decode (base64_Encode bs) = Some bs"
proof (induction bs rule: base64_Encode.induct)
  case (1 a b c rest)
  define val where "val = push_bit 16 (ucast a) OR push_bit 8 (ucast b) OR (ucast c :: 64 word)"
  have e: "base64_Encode (a # b # c # rest) =
      enc64 (drop_bit 18 val) # enc64 (drop_bit 12 val) # enc64 (drop_bit 6 val) # enc64 val
        # base64_Encode rest"
    by (simp add: val_def Let_def)
  have s: "sextets [enc64 (drop_bit 18 val), enc64 (drop_bit 12 val), enc64 (drop_bit 6 val),
            enc64 val] = Some val"
    unfolding val_def by (rule decode_group3)
  have b: "ucast (drop_bit 16 val) = a" "ucast (drop_bit 8 val) = b" "ucast val = c"
    unfolding val_def by (rule bytes3)+
  show ?case
    unfolding e by (simp add: enc64_not_pad s b 1 del: sextets.simps)
next
  case (2 a b)
  define val where "val = push_bit 16 (ucast a) OR (push_bit 8 (ucast b) :: 64 word)"
  have e: "base64_Encode [a, b] =
      [enc64 (drop_bit 18 val), enc64 (drop_bit 12 val), enc64 (drop_bit 6 val), CHR ''='']"
    by (simp add: val_def Let_def)
  have s: "sextets [enc64 (drop_bit 18 val), enc64 (drop_bit 12 val), enc64 (drop_bit 6 val),
            CHR ''A''] = Some val"
    unfolding val_def by (rule decode_group2)
  have b: "ucast (drop_bit 16 val) = a" "ucast (drop_bit 8 val) = b"
    using bytes3(1,2)[of a b 0] by (simp_all add: val_def)
  show ?case
    unfolding e by (simp add: enc64_not_pad s b del: sextets.simps)
next
  case (3 a)
  define val where "val = (push_bit 16 (ucast a) :: 64 word)"
  have e: "base64_Encode [a] =
      [enc64 (drop_bit 18 val), enc64 (drop_bit 12 val), CHR ''='', CHR ''='']"
    by (simp add: val_def Let_def)
  have s: "sextets [enc64 (drop_bit 18 val), enc64 (drop_bit 12 val), CHR ''A'', CHR ''A'']
            = Some val"
    unfolding val_def by (rule decode_group1)
  have b: "ucast (drop_bit 16 val) = a"
    using bytes3(1)[of a 0 0] by (simp add: val_def)
  show ?case
    unfolding e by (simp add: enc64_not_pad s b del: sextets.simps)
next
  case 4
  show ?case by simp
qed

lemma HasPrefix_prefix: "HasPrefix s p = prefix p s"
proof
  assume "HasPrefix s p"
  then have "take (length p) s = p" by (simp add: HasPrefix_def)
  then show "prefix p s" using take_is_prefix[of "length p" s] by simp
next
  assume "prefix p s"
  then obtain r where "s = p @ r" by (auto simp: prefix_def)
  then show "HasPrefix s p" by (simp add: HasPrefix_def)
qed

lemma TrimPrefix_payload: "TrimPrefix s ''sha256:'' = payload s"
  by (simp add: TrimPrefix_def HasPrefix_prefix payload_def)

lemma lower_digit_table:
  "\<forall>c\<in>set ''0123456789abcdef''. toLowerByte c = c"
  by code_simp

lemma ToLower_lower: "\<forall>c\<in>set h. c \<in> set ''0123456789abcdef'' \<Longrightarrow> ToLower h = h"
  unfolding ToLower_def using lower_digit_table by (intro map_idI) blast

lemma payload_hex: "\<forall>c\<in>set h. isHexDigit c \<Longrightarrow> payload h = h"
proof -
  assume h: "\<forall>c\<in>set h. isHexDigit c"
  have "\<not> prefix ''sha256:'' h"
  proof
    assume "prefix ''sha256:'' h"
    then obtain r where "h = ''sha256:'' @ r" by (auto simp: prefix_def)
    with h have "isHexDigit CHR ''s''" by simp
    then show False by (simp add: isHexDigit_def)
  qed
  then show ?thesis by (simp add: payload_def)
qed

lemma payload_prefixed: "payload (''sha256:'' @ h) = h"
  by (simp add: payload_def)

lemma convert_cases:
  "if (\<exists>c\<in>set (payload s). \<not> isHexDigit c) \<or> odd (length (payload s))
   then \<exists>err. convertOllamaHashToNixHash s = Inl err
   else convertOllamaHashToNixHash s = Inr (''sha256-'' @ base64_Encode (hexBytes (payload s)))"
proof -
  obtain bs e where d: "hex_Decode (payload s) = (bs, e)" by (cases "hex_Decode (payload s)")
  show ?thesis
  proof (cases e)
    case None
    with d hex_Decode_error_iff[of "payload s"] hex_Decode_bytes[of "payload s"]
    show ?thesis
      by (simp add: convertOllamaHashToNixHash_def TrimPrefix_payload hex_DecodeString_def)
  next
    case (Some err)
    with d hex_Decode_error_iff[of "payload s"]
    show ?thesis
      by (simp add: convertOllamaHashToNixHash_def TrimPrefix_payload hex_DecodeString_def)
  qed
qed

subsection \<open>SHA-256: a test vector\<close>

lemma sha256_abc:
  "sha256_Sum (map of_char ''abc'') =
     [0xba, 0x78, 0x16, 0xbf, 0x8f, 0x01, 0xcf, 0xea, 0x41, 0x41, 0x40, 0xde, 0x5d, 0xae, 0x22, 0x23,
      0xb0, 0x03, 0x61, 0xa3, 0x96, 0x17, 0x7a, 0x9c, 0xb4, 0x10, 0xff, 0x61, 0xf2, 0x00, 0x15, 0xad]"
  by code_simp

subsection \<open>Quoting and escaping\<close>

lemma quote_table: "\<forall>c\<in>set (encodeStd @ ''=-''). quoteByte c = [c]"
  by code_simp

lemma dquote: "char_of (0x22 :: nat) = CHR 0x22"
  by code_simp

lemma base64_chars: "set (base64_Encode bs) \<subseteq> set (encodeStd @ ''=-'')"
  using enc64_in by (induction bs rule: base64_Encode.induct) (auto simp: Let_def)

lemma concat_quote_plain: "\<forall>c\<in>set s. quoteByte c = [c] \<Longrightarrow> concat (map quoteByte s) = s"
  by (induction s) auto

lemma Quote_hash:
  "Quote (''sha256-'' @ base64_Encode bs)
     = CHR 0x22 # ''sha256-'' @ base64_Encode bs @ [CHR 0x22]"
proof -
  have "set ''sha256-'' \<subseteq> set (encodeStd @ ''=-'')" by (simp add: encodeStd_def)
  with base64_chars[of bs] have "\<forall>c\<in>set (''sha256-'' @ base64_Encode bs). quoteByte c = [c]"
    using quote_table by auto
  from concat_quote_plain[OF this]
  have eq: "concat (map quoteByte (''sha256-'' @ base64_Encode bs)) = ''sha256-'' @ base64_Encode bs" .
  show ?thesis unfolding Quote_def eq dquote by simp
qed

lemma ascii_host_marks:
  "\<forall>c\<in>set (''!$&()*+,;=:[]<>'' @ [char_of (0x27 :: nat), char_of (0x22 :: nat)]). isASCII c"
  by code_simp

lemma ascii_unreserved_marks: "\<forall>c\<in>set ''-_.~''. isASCII c"
  by code_simp

lemma ascii_reserved: "\<forall>c\<in>set ''$&+,/:;=?@''. isASCII c"
  by code_simp

lemma ascii_upperhex: "\<forall>c\<in>set upperhex. isASCII c"
  by code_simp

lemma isAlnum_ascii: "isAlnum c \<Longrightarrow> isASCII c"
  by (auto simp: isAlnum_def isASCII_def Let_def)

lemma not_escaped_ascii: "\<not> shouldEscape c mode \<Longrightarrow> isASCII c"
proof -
  assume a: "\<not> shouldEscape c mode"
  then consider "isAlnum c"
    | "c \<in> set (''!$&()*+,;=:[]<>'' @ [char_of (0x27 :: nat), char_of (0x22 :: nat)])"
    | "c \<in> set ''-_.~''" | "c \<in> set ''$&+,/:;=?@''"
    unfolding shouldEscape_def by (auto split: if_splits)
  then show ?thesis
  proof cases
    case 1
    then show ?thesis by (rule isAlnum_ascii)
  next
    case 2
    with ascii_host_marks show ?thesis by blast
  next
    case 3
    with ascii_unreserved_marks show ?thesis by blast
  next
    case 4
    with ascii_reserved show ?thesis by blast
  qed
qed

lemma nibble_index: "unat ((b :: byte) AND 15) < 16" "unat (drop_bit 4 (b :: byte)) < 16"
proof -
  have "unat (b AND 15) \<le> unat (15 :: byte)"
    by (rule word_and_le1 [THEN word_le_nat_alt [THEN iffD1]])
  then show "unat (b AND 15) < 16" by simp
  have "unat (drop_bit 4 b) = drop_bit 4 (unat b)" by (rule unat_drop_bit_eq)
  then have "unat (drop_bit 4 b) = unat b div 16" by (simp add: drop_bit_eq_div)
  moreover have "unat b < 256" using unsigned_less[of b, where ?'a = nat] by simp
  ultimately show "unat (drop_bit 4 b) < 16" by simp
qed

lemma upperhex_ascii: "k < 16 \<Longrightarrow> isASCII (upperhex ! k)"
proof -
  assume "k < 16"
  then have "k < length upperhex" by (simp add: upperhex_def)
  then have "upperhex ! k \<in> set upperhex" by (rule nth_mem)
  with ascii_upperhex show ?thesis by blast
qed

lemma escape_ascii: "\<forall>c\<in>set (escape s mode). isASCII c"
proof -
  have pc: "isASCII CHR ''%''" by (simp add: isASCII_def)
  have "\<forall>c\<in>set (escapeByte mode x). isASCII c" for x
    using not_escaped_ascii[of x mode] upperhex_ascii nibble_index pc
    by (simp add: escapeByte_def)
  then show ?thesis by (auto simp: escape_def)
qed

lemma URL_String_ascii:
  "\<forall>c\<in>set (URL_String \<lparr>Scheme = ''https'', Host = h, Path = p\<rparr>). isASCII c"
proof -
  have lit: "\<forall>c\<in>set ''https:/.*''. isASCII c" by (simp add: isASCII_def)
  have e: "\<forall>c\<in>set (EscapedPath \<lparr>Scheme = ''https'', Host = h, Path = p\<rparr>). isASCII c"
    using escape_ascii[of p encodePath] lit by (simp add: EscapedPath_def)
  show ?thesis
    using e escape_ascii[of h encodeHost] lit
    by (auto simp: URL_String_def Let_def split: list.splits)
qed

lemma hash_text_ascii: "\<forall>c\<in>set (''sha256-'' @ base64_Encode bs). isASCII c"
proof -
  have "set ''sha256-'' \<subseteq> set (encodeStd @ ''=-'')" by (simp add: encodeStd_def)
  with base64_chars[of bs] have "set (''sha256-'' @ base64_Encode bs) \<subseteq> set (encodeStd @ ''=-'')"
    by auto
  moreover have "\<forall>c\<in>set (encodeStd @ ''=-''). isASCII c" by code_simp
  ultimately show ?thesis by blast
qed

subsection \<open>Lines\<close>

lemma lines_from_line:
  "CHR ''\<newline>'' \<notin> set l \<Longrightarrow> lines_from cur (l @ CHR ''\<newline>'' # s) = (cur @ l) # lines_from [] s"
  by (induction l arbitrary: cur) auto

lemma lines_from_chunks:
  "\<forall>c\<in>set cs. oneLine c \<Longrightarrow> lines_from [] (concat cs @ s) = map butlast cs @ lines_from [] s"
proof (induction cs)
  case Nil
  show ?case by simp
next
  case (Cons c cs)
  then have o: "oneLine c" by simp
  then have c: "c = butlast c @ [CHR ''\<newline>'']"
    unfolding oneLine_def by (metis append_butlast_last_id)
  from o have n: "CHR ''\<newline>'' \<notin> set (butlast c)" by (simp add: oneLine_def)
  have "lines_from [] (concat (c # cs) @ s)
      = lines_from [] (butlast c @ CHR ''\<newline>'' # (concat cs @ s))"
    by (subst c) simp
  also have "\<dots> = butlast c # lines_from [] (concat cs @ s)"
    using lines_from_line[OF n, of "[]"] by simp
  finally show ?case using Cons by simp
qed

lemma oneLine_snoc: "oneLine (x @ [CHR ''\<newline>'']) = (CHR ''\<newline>'' \<notin> set x)"
  by (simp add: oneLine_def)

lemma digit_table: "\<forall>k\<in>set [0..<10]. char_of (48 + k) \<in> set ''0123456789''"
  by code_simp

lemma digit_char: "(k::nat) < 10 \<Longrightarrow> char_of (48 + k) \<in> set ''0123456789''"
proof -
  assume "k < 10"
  then have "k \<in> set [0..<10]" by simp
  with digit_table show ?thesis by blast
qed

lemma decimal_digits: "set (decimal n) \<subseteq> set ''0123456789''"
proof (induction n rule: decimal.induct)
  case (1 n)
  show ?case
  proof (cases "n < 10")
    case True
    then show ?thesis using digit_char[of n] by (subst decimal.simps) simp
  next
    case False
    have "n mod 10 < 10" by simp
    from digit_char[OF this] 1[OF False] False show ?thesis
      by (subst decimal.simps) simp
  qed
qed

lemma decimal_no_newline: "CHR ''\<newline>'' \<notin> set (decimal n)"
  using decimal_digits[of n] by auto

lemma lowerhex_no_newline: "k < 16 \<Longrightarrow> lowerhex ! k \<noteq> CHR ''\<newline>''"
proof -
  assume "k < 16"
  then have "k < length lowerhex" by (simp add: lowerhex_def)
  then have "lowerhex ! k \<in> set lowerhex" by (rule nth_mem)
  then show ?thesis by (auto simp: lowerhex_def)
qed

lemma backslash_no_newline: "char_of (0x5C :: nat) \<noteq> CHR ''\<newline>''"
  by code_simp

lemma quoteByte_no_newline: "CHR ''\<newline>'' \<notin> set (quoteByte c)"
proof -
  have n: "c = CHR ''\<newline>'' \<longleftrightarrow> (of_char c :: nat) = 10"
    using of_char_eq_iff[of c "CHR ''\<newline>''", where ?'a = nat] by simp
  have h1: "lowerhex ! unat (drop_bit 4 (of_char c :: byte)) \<noteq> CHR ''\<newline>''"
    by (rule lowerhex_no_newline) (rule nibble_index)
  have h2: "lowerhex ! unat ((of_char c :: byte) AND 0xF) \<noteq> CHR ''\<newline>''"
    by (rule lowerhex_no_newline) (rule nibble_index)
  show ?thesis
    using h1 h2 backslash_no_newline n
    by (auto simp: quoteByte_def Let_def)
qed

lemma Quote_no_newline: "CHR ''\<newline>'' \<notin> set (Quote s)"
proof -
  have "char_of (0x22 :: nat) \<noteq> CHR ''\<newline>''" by code_simp
  then show ?thesis using quoteByte_no_newline by (auto simp: Quote_def)
qed

section \<open>The recipe builder: facts\<close>

lemma convert_Inr:
  "convertOllamaHashToNixHash d = Inr h \<Longrightarrow>
     validHex (payload d) \<and> h = ''sha256-'' @ base64_Encode (hexBytes (payload d))"
  using convert_cases[of d] by (auto simp: validHex_def split: if_splits)

lemma convert_Inl:
  "convertOllamaHashToNixHash d = Inl e \<Longrightarrow> \<not> validHex (payload d)"
  using convert_cases[of d] by (auto simp: validHex_def split: if_splits)

lemma writeBlob_cases:
  "writeBlob registry i layer sb =
     (if validHex (payload (Digest layer)) then Inr (sb @ blobBlock registry i layer)
      else Inl (Wrapped ''failed to convert blob hash: ''
                 (case convertOllamaHashToNixHash (Digest layer) of Inl e \<Rightarrow> e)))"
proof (cases "convertOllamaHashToNixHash (Digest layer)")
  case (Inl e)
  with convert_Inl[OF Inl] show ?thesis
    by (simp add: writeBlob_def Let_def)
next
  case (Inr h)
  with convert_Inr[OF Inr] show ?thesis
    by (simp add: writeBlob_def Let_def blobBlock_def WriteString_def blobDecl_def urlLine_def
          hashLine_def blobURL_of_def)
qed

lemma writeBlobs_Inr:
  "\<forall>l\<in>set ls. validHex (payload (Digest l)) \<Longrightarrow>
   writeBlobs registry i ls sb
     = Inr (sb @ concat (map (\<lambda>k. blobBlock registry (i + k) (ls ! k)) [0..<length ls]))"
proof (induction ls arbitrary: i sb)
  case Nil
  show ?case by simp
next
  case (Cons l ls)
  have "map (\<lambda>k. blobBlock registry (i + k) ((l # ls) ! k)) [0..<length (l # ls)]
      = blobBlock registry i l # map (\<lambda>k. blobBlock registry (Suc i + k) (ls ! k)) [0..<length ls]"
    by (simp add: upt_conv_Cons map_Suc_upt[symmetric] del: upt_Suc)
  with Cons show ?case
    by (simp add: writeBlob_cases)
qed

lemma writeBlobs_Inl:
  "\<exists>l\<in>set ls. \<not> validHex (payload (Digest l)) \<Longrightarrow>
   \<exists>e. writeBlobs registry i ls sb = Inl (Wrapped ''failed to convert blob hash: '' e)"
proof (induction ls arbitrary: i sb)
  case Nil
  then show ?case by simp
next
  case (Cons l ls)
  show ?case
  proof (cases "validHex (payload (Digest l))")
    case True
    with Cons.prems have "\<exists>l\<in>set ls. \<not> validHex (payload (Digest l))" by simp
    from Cons.IH[OF this] True show ?thesis by (simp add: writeBlob_cases)
  next
    case False
    then show ?thesis by (simp add: writeBlob_cases)
  qed
qed

lemma writePaths_eq: "writePaths i n sb = sb @ map pathLine [i..<n]"
proof (induction i n sb rule: writePaths.induct)
  case (1 i n sb)
  show ?case
  proof (cases "i < n")
    case True
    with 1 show ?thesis
      by (subst writePaths.simps) (simp add: WriteString_def pathLine_def upt_conv_Cons)
  next
    case False
    then show ?thesis by (subst writePaths.simps) simp
  qed
qed

lemma writeLinks_eq: "writeLinks i n sb = sb @ map linkLine [i..<n]"
proof (induction i n sb rule: writeLinks.induct)
  case (1 i n sb)
  show ?case
  proof (cases "i < n")
    case True
    with 1 show ?thesis
      by (subst writeLinks.simps) (simp add: WriteString_def linkLine_def upt_conv_Cons)
  next
    case False
    then show ?thesis by (subst writeLinks.simps) simp
  qed
qed

lemma buildRecipe_unfold:
  "buildRecipe registry model version manifestURL hashed m =
     (case writeBlobs registry 0 (Layers m) recipeHead of
        Inl err \<Rightarrow> Inl err
      | Inr sb \<Rightarrow>
          Inr (sb @ [''\<newline>'', ''  # Fetch the manifest file.\<newline>'']
                 @ manifestBlockLines manifestURL hashed
                 @ joinOpen
                 @ map pathLine [0..<length (Layers m)] @ [''      manifestFile\<newline>'']
                 @ scriptOpen
                 @ map linkLine [0..<length (Layers m)]
                 @ recipeTail registry model version))"
  unfolding buildRecipe_def Let_def WriteString_def
  by (simp only: writePaths_eq writeLinks_eq recipeHead_def
      manifestBlockLines_def joinOpen_def scriptOpen_def recipeTail_def manifestDecl_def
      urlLine_def hashLine_def append_assoc append_Cons append_Nil)

lemma buildRecipe_ok:
  assumes "\<forall>l\<in>set (Layers m). validHex (payload (Digest l))"
  shows "buildRecipe registry model version manifestURL hashed m
           = Inr (recipeLines registry model version manifestURL hashed (Layers m))"
  unfolding buildRecipe_unfold writeBlobs_Inr[OF assms] recipeLines_def
  by (simp only: sum.case append_assoc add_0)

lemma buildRecipe_fail:
  assumes "\<exists>l\<in>set (Layers m). \<not> validHex (payload (Digest l))"
  shows "\<exists>e. buildRecipe registry model version manifestURL hashed m
           = Inl (Wrapped ''failed to convert blob hash: '' e)"
proof -
  from writeBlobs_Inl[OF assms]
  obtain e where "writeBlobs registry 0 (Layers m) recipeHead
      = Inl (Wrapped ''failed to convert blob hash: '' e)" by blast
  then show ?thesis
    unfolding buildRecipe_unfold by (simp only: sum.case) blast
qed

section \<open>The lines of the recipe: facts\<close>

lemma isBlobDecl_blobDecl: "isBlobDecl (blobDecl i)"
proof -
  have "suffix '' = pkgs.fetchurl {\<newline>'' ((''  blob_'' @ decimal i) @ '' = pkgs.fetchurl {\<newline>'')"
    by (rule suffix_appendI) simp
  then show ?thesis by (simp add: isBlobDecl_def blobDecl_def)
qed

lemma not_isBlobDecl: "\<not> prefix ''  blob_'' c \<Longrightarrow> isBlobDecl c = False"
  by (simp add: isBlobDecl_def)

lemma blobBlock_filters:
  "filter isBlobDecl (blobBlock r i l) = [blobDecl i]"
  "filter isBlobLink (blobBlock r i l) = []"
  "filter (\<lambda>c. c = manifestDecl) (blobBlock r i l) = []"
  "\<forall>c\<in>set (blobBlock r i l). c \<noteq> ''    paths = [\<newline>''"
  "\<forall>c\<in>set (blobBlock r i l). c \<noteq> manifestDecl"
proof -
  show "filter isBlobDecl (blobBlock r i l) = [blobDecl i]"
    by (simp add: blobBlock_def isBlobDecl_blobDecl not_isBlobDecl curlOptsList_def urlLine_def
          hashLine_def)
  show "filter isBlobLink (blobBlock r i l) = []"
    "filter (\<lambda>c. c = manifestDecl) (blobBlock r i l) = []"
    "\<forall>c\<in>set (blobBlock r i l). c \<noteq> ''    paths = [\<newline>''"
    "\<forall>c\<in>set (blobBlock r i l). c \<noteq> manifestDecl"
    by (simp_all add: blobBlock_def isBlobLink_def blobDecl_def curlOptsList_def urlLine_def
          hashLine_def manifestDecl_def)
qed

lemma recipeHead_filters:
  "filter isBlobDecl recipeHead = []"
  "filter isBlobLink recipeHead = []"
  "filter (\<lambda>c. c = manifestDecl) recipeHead = []"
  "\<forall>c\<in>set recipeHead. c \<noteq> ''    paths = [\<newline>''"
  "\<forall>c\<in>set recipeHead. c \<noteq> manifestDecl"
  by (simp_all add: recipeHead_def not_isBlobDecl isBlobLink_def manifestDecl_def)

lemma manifestBlockLines_filters:
  "filter isBlobDecl (manifestBlockLines u h) = []"
  "filter isBlobLink (manifestBlockLines u h) = []"
  "filter (\<lambda>c. c = manifestDecl) (manifestBlockLines u h) = [manifestDecl]"
  "\<forall>c\<in>set (manifestBlockLines u h). c \<noteq> ''    paths = [\<newline>''"
  by (simp_all add: manifestBlockLines_def not_isBlobDecl isBlobLink_def manifestDecl_def
        curlOptsList_def urlLine_def hashLine_def)

lemma joinOpen_filters:
  "filter isBlobDecl joinOpen = []"
  "filter isBlobLink joinOpen = []"
  "filter (\<lambda>c. c = manifestDecl) joinOpen = []"
  "dropWhile (\<lambda>c. c \<noteq> ''    paths = [\<newline>'') (joinOpen @ xs) = ''    paths = [\<newline>'' # xs"
  by (simp_all add: joinOpen_def not_isBlobDecl isBlobLink_def manifestDecl_def)

lemma scriptOpen_filters:
  "filter isBlobDecl scriptOpen = []"
  "filter isBlobLink scriptOpen = []"
  "filter (\<lambda>c. c = manifestDecl) scriptOpen = []"
  "takeWhile (\<lambda>c. c \<noteq> ''    ];\<newline>'') (scriptOpen @ xs) = []"
  by (simp_all add: scriptOpen_def not_isBlobDecl isBlobLink_def manifestDecl_def)

lemma recipeTail_filters:
  "filter isBlobDecl (recipeTail r mo v) = []"
  "filter isBlobLink (recipeTail r mo v) = []"
  "filter (\<lambda>c. c = manifestDecl) (recipeTail r mo v) = []"
  by (simp_all add: recipeTail_def not_isBlobDecl isBlobLink_def manifestDecl_def)

lemma pathLine_filters:
  "filter isBlobDecl (map pathLine ns) = []"
  "filter isBlobLink (map pathLine ns) = []"
  "filter (\<lambda>c. c = manifestDecl) (map pathLine ns) = []"
  "takeWhile (\<lambda>c. c \<noteq> ''    ];\<newline>'') (map pathLine ns @ xs)
     = map pathLine ns @ takeWhile (\<lambda>c. c \<noteq> ''    ];\<newline>'') xs"
  by (induction ns; simp add: pathLine_def not_isBlobDecl isBlobLink_def manifestDecl_def)+

lemma linkLine_filters:
  "filter isBlobDecl (map linkLine ns) = []"
  "filter isBlobLink (map linkLine ns) = map linkLine ns"
  "filter (\<lambda>c. c = manifestDecl) (map linkLine ns) = []"
  by (induction ns; simp add: linkLine_def not_isBlobDecl isBlobLink_def manifestDecl_def)+

lemma blobBlocks_filters:
  "filter isBlobDecl (concat (map (\<lambda>i. blobBlock r i (ls ! i)) ns)) = map blobDecl ns"
  "filter isBlobLink (concat (map (\<lambda>i. blobBlock r i (ls ! i)) ns)) = []"
  "filter (\<lambda>c. c = manifestDecl) (concat (map (\<lambda>i. blobBlock r i (ls ! i)) ns)) = []"
  "\<forall>c\<in>set (concat (map (\<lambda>i. blobBlock r i (ls ! i)) ns)). c \<noteq> ''    paths = [\<newline>''"
  "\<forall>c\<in>set (concat (map (\<lambda>i. blobBlock r i (ls ! i)) ns)). c \<noteq> manifestDecl"
  using blobBlock_filters(4,5)
  by (induction ns; simp add: blobBlock_filters(1,2,3); blast)+

lemma misc_filters:
  "\<not> isBlobDecl ''\<newline>''" "\<not> isBlobDecl ''  # Fetch the manifest file.\<newline>''"
  "\<not> isBlobDecl ''      manifestFile\<newline>''"
  "\<not> isBlobLink ''\<newline>''" "\<not> isBlobLink ''  # Fetch the manifest file.\<newline>''"
  "\<not> isBlobLink ''      manifestFile\<newline>''"
  "''\<newline>'' \<noteq> manifestDecl" "''  # Fetch the manifest file.\<newline>'' \<noteq> manifestDecl"
  "''      manifestFile\<newline>'' \<noteq> manifestDecl"
  by (simp_all add: not_isBlobDecl isBlobLink_def manifestDecl_def)

lemma recipeLines_blobDecls:
  "filter isBlobDecl (recipeLines r mo v u h ls) = map blobDecl [0..<length ls]"
  by (simp add: recipeLines_def recipeHead_filters manifestBlockLines_filters joinOpen_filters
        scriptOpen_filters recipeTail_filters pathLine_filters linkLine_filters
        blobBlocks_filters misc_filters del: upt_Suc)

lemma recipeLines_links:
  "filter isBlobLink (recipeLines r mo v u h ls) = map linkLine [0..<length ls]"
  by (simp add: recipeLines_def recipeHead_filters manifestBlockLines_filters joinOpen_filters
        scriptOpen_filters recipeTail_filters pathLine_filters linkLine_filters
        blobBlocks_filters misc_filters del: upt_Suc)

lemma recipeLines_manifestDecl:
  "filter (\<lambda>c. c = manifestDecl) (recipeLines r mo v u h ls) = [manifestDecl]"
  by (simp add: recipeLines_def recipeHead_filters manifestBlockLines_filters joinOpen_filters
        scriptOpen_filters recipeTail_filters pathLine_filters linkLine_filters
        blobBlocks_filters misc_filters del: upt_Suc)

lemma dropWhile_skip:
  "\<forall>x\<in>set xs. P x \<Longrightarrow> dropWhile P (xs @ ys) = dropWhile P ys"
  by (induction xs) auto

lemma recipeLines_pathsList:
  "pathsList (recipeLines r mo v u h ls)
     = map pathLine [0..<length ls] @ [''      manifestFile\<newline>'']"
proof -
  let ?P = "\<lambda>c. c \<noteq> ''    paths = [\<newline>''"
  let ?rest = "map pathLine [0..<length ls] @ [''      manifestFile\<newline>''] @ scriptOpen
      @ map linkLine [0..<length ls] @ recipeTail r mo v"
  have pre: "\<forall>c\<in>set (recipeHead @ concat (map (\<lambda>i. blobBlock r i (ls ! i)) [0..<length ls])
      @ [''\<newline>'', ''  # Fetch the manifest file.\<newline>''] @ manifestBlockLines u h). ?P c"
    using recipeHead_filters(4) blobBlocks_filters(4)[of r ls "[0..<length ls]"]
      manifestBlockLines_filters(4)[of u h]
    by (simp del: upt_Suc) blast
  have split: "recipeLines r mo v u h ls
      = (recipeHead @ concat (map (\<lambda>i. blobBlock r i (ls ! i)) [0..<length ls])
      @ [''\<newline>'', ''  # Fetch the manifest file.\<newline>''] @ manifestBlockLines u h)
      @ (joinOpen @ ?rest)"
    by (simp add: recipeLines_def del: upt_Suc)
  have "dropWhile ?P (recipeLines r mo v u h ls) = ''    paths = [\<newline>'' # ?rest"
    unfolding split by (simp only: dropWhile_skip[OF pre] joinOpen_filters(4))
  then show ?thesis
    by (simp add: pathsList_def pathLine_filters(4) scriptOpen_filters(4) del: upt_Suc)
qed

lemma recipeLines_manifestBlock:
  "manifestBlock (recipeLines r mo v u h ls) = manifestBlockLines u h"
proof -
  let ?P = "\<lambda>c. c \<noteq> manifestDecl"
  let ?pre = "recipeHead @ concat (map (\<lambda>i. blobBlock r i (ls ! i)) [0..<length ls])
      @ [''\<newline>'', ''  # Fetch the manifest file.\<newline>'']"
  let ?rest = "joinOpen @ map pathLine [0..<length ls] @ [''      manifestFile\<newline>''] @ scriptOpen
      @ map linkLine [0..<length ls] @ recipeTail r mo v"
  have pre: "\<forall>c\<in>set ?pre. ?P c"
    using recipeHead_filters(5) blobBlocks_filters(5)[of r ls "[0..<length ls]"] misc_filters(7,8)
    by (simp del: upt_Suc) blast
  have split: "recipeLines r mo v u h ls = ?pre @ (manifestBlockLines u h @ ?rest)"
    by (simp add: recipeLines_def del: upt_Suc)
  have "dropWhile ?P (recipeLines r mo v u h ls) = manifestBlockLines u h @ ?rest"
    unfolding split by (simp only: dropWhile_skip[OF pre]) (simp add: manifestBlockLines_def)
  then show ?thesis
    by (simp add: manifestBlock_def manifestBlockLines_def)
qed

subsection \<open>The lines of the printed text\<close>

lemma squote: "char_of (0x27 :: nat) = CHR 0x27"
  by code_simp

lemma oneLine_named:
  "oneLine (blobDecl i)" "oneLine (pathLine i)" "oneLine (linkLine i)"
  "oneLine (urlLine u)" "oneLine (hashLine x)" "oneLine curlOptsList" "oneLine manifestDecl"
proof -
  have "blobDecl i = (''  blob_'' @ decimal i @ '' = pkgs.fetchurl {'') @ [CHR ''\<newline>'']"
    by (simp add: blobDecl_def)
  then show "oneLine (blobDecl i)"
    by (simp only: oneLine_snoc) (simp add: decimal_no_newline)
  have "pathLine i = (''      blob_'' @ decimal i) @ [CHR ''\<newline>'']"
    by (simp add: pathLine_def)
  then show "oneLine (pathLine i)"
    by (simp only: oneLine_snoc) (simp add: decimal_no_newline)
  have "linkLine i = (''      ln -s ${blob_'' @ decimal i @ ''} $out/blobs/'') @ [CHR ''\<newline>'']"
    by (simp add: linkLine_def)
  then show "oneLine (linkLine i)"
    by (simp only: oneLine_snoc) (simp add: decimal_no_newline)
  have "urlLine u = (''    url = '' @ Quote u @ '';'') @ [CHR ''\<newline>'']"
    by (simp add: urlLine_def)
  then show "oneLine (urlLine u)"
    by (simp only: oneLine_snoc) (simp add: Quote_no_newline)
  have "hashLine x = (''    hash = '' @ Quote x @ '';'') @ [CHR ''\<newline>'']"
    by (simp add: hashLine_def)
  then show "oneLine (hashLine x)"
    by (simp only: oneLine_snoc) (simp add: Quote_no_newline)
  show "oneLine curlOptsList" by (simp add: oneLine_def curlOptsList_def)
  show "oneLine manifestDecl" by (simp add: oneLine_def manifestDecl_def)
qed

lemma oneLine_blocks:
  "\<forall>c\<in>set recipeHead. oneLine c"
  "\<forall>c\<in>set (blobBlock r i l). oneLine c"
  "\<forall>c\<in>set (manifestBlockLines u h). oneLine c"
  "\<forall>c\<in>set joinOpen. oneLine c"
  "\<forall>c\<in>set scriptOpen. oneLine c"
proof -
  show "\<forall>c\<in>set recipeHead. oneLine c" by (simp add: recipeHead_def oneLine_def)
  have close: "oneLine ''  };\<newline>''" by (simp add: oneLine_def)
  show "\<forall>c\<in>set (blobBlock r i l). oneLine c"
    using close by (simp add: blobBlock_def oneLine_named)
  show "\<forall>c\<in>set (manifestBlockLines u h). oneLine c"
    using close by (simp add: manifestBlockLines_def oneLine_named)
  show "\<forall>c\<in>set joinOpen. oneLine c" by (simp add: joinOpen_def oneLine_def dquote)
  show "\<forall>c\<in>set scriptOpen. oneLine c" by (simp add: scriptOpen_def oneLine_def squote)
qed

lemma oneLine_tail:
  assumes "CHR ''\<newline>'' \<notin> set r" "CHR ''\<newline>'' \<notin> set mo" "CHR ''\<newline>'' \<notin> set v"
  shows "\<forall>c\<in>set (recipeTail r mo v). oneLine c"
proof -
  have 1: "''      mkdir -p $out/manifests/'' @ r @ ''/'' @ mo @ ''\<newline>''
      = (''      mkdir -p $out/manifests/'' @ r @ ''/'' @ mo) @ [CHR ''\<newline>'']" by simp
  have 2: "''      ln -s ${manifestFile} $out/manifests/'' @ r @ ''/'' @ mo @ ''/'' @ v @ ''\<newline>''
      = (''      ln -s ${manifestFile} $out/manifests/'' @ r @ ''/'' @ mo @ ''/'' @ v)
          @ [CHR ''\<newline>'']" by simp
  have a: "oneLine (''      mkdir -p $out/manifests/'' @ r @ ''/'' @ mo @ ''\<newline>'')"
    unfolding 1 by (simp only: oneLine_snoc) (simp add: assms)
  have b: "oneLine (''      ln -s ${manifestFile} $out/manifests/'' @ r @ ''/'' @ mo @ ''/'' @ v
      @ ''\<newline>'')"
    unfolding 2 by (simp only: oneLine_snoc) (simp add: assms)
  have c: "oneLine ''\<newline>''" "oneLine ''      # Move manifest file to the appropriate directory.\<newline>''"
    "oneLine (''    '' @ [char_of (0x27 :: nat), char_of (0x27 :: nat)] @ '';\<newline>'')"
    "oneLine ''  }\<newline>''"
    by (simp_all add: oneLine_def squote)
  show ?thesis
    unfolding recipeTail_def using a b c by simp
qed

lemma oneLine_recipeLines:
  assumes "CHR ''\<newline>'' \<notin> set r" "CHR ''\<newline>'' \<notin> set mo" "CHR ''\<newline>'' \<notin> set v"
  shows "\<forall>c\<in>set (recipeLines r mo v u h ls). oneLine c"
proof -
  have m: "oneLine ''\<newline>''" "oneLine ''  # Fetch the manifest file.\<newline>''"
    "oneLine ''      manifestFile\<newline>''"
    by (simp_all add: oneLine_def)
  show ?thesis
    unfolding recipeLines_def
    using oneLine_blocks oneLine_tail[OF assms] oneLine_named m
    by (auto simp del: upt_Suc)
qed

lemma parseModel_chars:
  "set (fst (parseModel s)) \<subseteq> set s" "set (snd (parseModel s)) \<subseteq> set s \<union> set ''latest''"
  by (auto simp: parseModel_def SplitN2_def Let_def split: option.splits
        dest: in_set_takeD in_set_dropD)

lemma recipe_text_lines:
  assumes "CHR ''\<newline>'' \<notin> set r" "CHR ''\<newline>'' \<notin> set mo" "CHR ''\<newline>'' \<notin> set v"
  shows "lines_of (String (recipeLines r mo v u h ls) @ ''\<newline>'')
           = map butlast (recipeLines r mo v u h ls) @ [[]]"
  using lines_from_chunks[OF oneLine_recipeLines[OF assms], of u h ls "''\<newline>''"]
  by (simp add: lines_of_def String_def)

lemma filter_lines:
  assumes "\<forall>c\<in>set cs. oneLine c"
  shows "filter (\<lambda>l. P (l @ ''\<newline>'')) (map butlast cs) = map butlast (filter P cs)"
  using assms
proof (induction cs)
  case Nil
  show ?case by simp
next
  case (Cons c cs)
  then have "oneLine c" by simp
  then have "butlast c @ ''\<newline>'' = c"
    unfolding oneLine_def by (metis append_butlast_last_id)
  with Cons show ?case by simp
qed

lemma recipe_text_blobDecls:
  assumes "CHR ''\<newline>'' \<notin> set r" "CHR ''\<newline>'' \<notin> set mo" "CHR ''\<newline>'' \<notin> set v"
  shows "filter (\<lambda>l. isBlobDecl (l @ ''\<newline>''))
           (lines_of (String (recipeLines r mo v u h ls) @ ''\<newline>''))
         = map (\<lambda>i. butlast (blobDecl i)) [0..<length ls]"
proof -
  have e: "\<not> isBlobDecl ([] @ ''\<newline>'')" by (simp add: isBlobDecl_def)
  show ?thesis
    unfolding recipe_text_lines[OF assms] filter_append
      filter_lines[OF oneLine_recipeLines[OF assms]] recipeLines_blobDecls
    using e by (simp add: comp_def del: upt_Suc)
qed

section \<open>Runs: facts\<close>

lemma body_Read_consumed:
  "body_Read k b = ((p, e), b') \<Longrightarrow>
     concat (pending b) = p @ concat (pending b') \<and> final b' = final b \<and> length p \<le> k"
  by (auto simp: body_Read_def split: list.splits if_splits)

lemma tee_Read_consumed:
  "tee_Read k (b, h) = ((p, e), (b', h')) \<Longrightarrow>
     h' = h @ p \<and> concat (pending b) = p @ concat (pending b') \<and> final b' = final b"
  by (auto simp: tee_Read_def split: prod.splits if_splits dest: body_Read_consumed)

lemma run_tee_consumed:
  "run_tee d (b, h) = (x, b', h') \<Longrightarrow>
     \<exists>taken. h' = h @ taken \<and> concat (pending b) = taken @ concat (pending b')"
proof (induction d arbitrary: b h)
  case (Done y)
  then show ?case by simp
next
  case (Read k f)
  obtain p e b1 h1 where t: "tee_Read k (b, h) = ((p, e), (b1, h1))"
    by (metis surj_pair)
  from Read.prems t have "run_tee (f (p, e)) (b1, h1) = (x, b', h')" by simp
  from Read.IH[OF _ this] obtain taken
    where "h' = h1 @ taken" "concat (pending b1) = taken @ concat (pending b')"
    by (auto simp: image_iff)
  with tee_Read_consumed[OF t] show ?case by auto
qed

lemma run_cases:
  "run fl ev p =
     (if flagRegistry fl = [] then (Some (Errorf ''registry is required''), p)
      else if flagModel fl = [] then (Some (Errorf ''model is required''), p)
      else (case http_Get ev (URL_String (manifestURL_for fl)) of
              Inl err \<Rightarrow> (Some (Wrapped ''failed to download manifest: '' err), called fl p)
            | Inr resp \<Rightarrow>
               (case run_tee (json_Decode ev) (resp, []) of
                  (Inl err, rest) \<Rightarrow>
                     (Some (Wrapped ''failed to decode manifest: '' err), called fl p)
                | (Inr m, rest, hashed) \<Rightarrow>
                   (case buildRecipe (flagRegistry fl) (fst (parseModel (flagModel fl)))
                           (snd (parseModel (flagModel fl))) (manifestURL_for fl) hashed m of
                      Inl err \<Rightarrow> (Some err, called fl p)
                    | Inr sb \<Rightarrow>
                       (None, (called fl p)\<lparr>stdout := stdout p @ String sb @ ''\<newline>''\<rparr>)))))"
  by (simp add: run_def manifestURL_for_def called_def Let_def split: prod.splits sum.splits)

lemma fetched_Some:
  "fetched fl ev = Some (resp, m, hashed, rest) \<Longrightarrow>
     flagRegistry fl \<noteq> [] \<and> flagModel fl \<noteq> []
     \<and> http_Get ev (URL_String (manifestURL_for fl)) = Inr resp
     \<and> run_tee (json_Decode ev) (resp, []) = (Inr m, rest, hashed)"
  by (auto simp: fetched_def split: if_splits sum.splits prod.splits)

lemma run_fetched:
  assumes "fetched fl ev = Some (resp, m, hashed, rest)"
  shows "run fl ev p =
     (if \<forall>l\<in>set (Layers m). validHex (payload (Digest l))
      then (None, (called fl p)\<lparr>stdout := stdout p
              @ String (recipeLines (flagRegistry fl) (fst (parseModel (flagModel fl)))
                  (snd (parseModel (flagModel fl))) (manifestURL_for fl) hashed (Layers m))
              @ ''\<newline>''\<rparr>)
      else (Some (Wrapped ''failed to convert blob hash: ''
                    (case buildRecipe (flagRegistry fl) (fst (parseModel (flagModel fl)))
                           (snd (parseModel (flagModel fl))) (manifestURL_for fl) hashed m of
                       Inl (Wrapped msg e) \<Rightarrow> e)), called fl p))"
proof (cases "\<forall>l\<in>set (Layers m). validHex (payload (Digest l))")
  case True
  from fetched_Some[OF assms] show ?thesis
    unfolding run_cases by (simp add: buildRecipe_ok[OF True] True)
next
  case False
  then have "\<exists>l\<in>set (Layers m). \<not> validHex (payload (Digest l))" by simp
  from buildRecipe_fail[OF this] obtain e where
    "buildRecipe (flagRegistry fl) (fst (parseModel (flagModel fl)))
       (snd (parseModel (flagModel fl))) (manifestURL_for fl) hashed m
       = Inl (Wrapped ''failed to convert blob hash: '' e)" by blast
  with fetched_Some[OF assms] False show ?thesis
    unfolding run_cases by simp
qed

lemma run_not_fetched:
  assumes "fetched fl ev = None"
  shows "\<exists>err. run fl ev p = (Some err, if flagRegistry fl = [] \<or> flagModel fl = [] then p else called fl p)
           \<and> (err = Errorf ''registry is required'' \<or> err = Errorf ''model is required''
                \<or> (\<exists>e. err = Wrapped ''failed to download manifest: '' e)
                \<or> (\<exists>e. err = Wrapped ''failed to decode manifest: '' e))"
  using assms unfolding run_cases
  by (auto simp: fetched_def split: if_splits sum.splits prod.splits)

section \<open>The hash transcoder: properties\<close>

text \<open>
  Claim C6. For every input string, the transcoder returns an error exactly when the
  string, after the removal of one leading \<open>sha256:\<close> if it has one (any other prefix
  stays, as part of the hexadecimal text), has a character that is not a hexadecimal digit
  or has odd length; otherwise it returns \<open>sha256-\<close> followed by the standard padded base64
  encoding of the bytes the hexadecimal text stands for.
\<close>

theorem transcoder_error_iff:
  "if (\<exists>c\<in>set (payload s). \<not> isHexDigit c) \<or> odd (length (payload s))
   then \<exists>err. convertOllamaHashToNixHash s = Inl err
   else convertOllamaHashToNixHash s = Inr (''sha256-'' @ base64_Encode (hexBytes (payload s)))"
  by (rule convert_cases)

theorem transcoder_error_iff_witness:
  "convertOllamaHashToNixHash ''sha256:ab'' = Inr ''sha256-qw==''
   \<and> (\<exists>err. convertOllamaHashToNixHash ''sha256:abc'' = Inl err)
   \<and> (\<exists>err. convertOllamaHashToNixHash ''sha257:ab'' = Inl err)"
  using transcoder_error_iff[of "''sha256:ab''"] transcoder_error_iff[of "''sha256:abc''"]
    transcoder_error_iff[of "''sha257:ab''"]
  by (simp add: payload_def isHexDigit_def hexDigitValue_def enc64_def encodeStd_def)


text \<open>
  Claim C4. For every valid hexadecimal string of 64 characters, given to the transcoder
  with or without a leading \<open>sha256:\<close>: the result starts with \<open>sha256-\<close>, and what
  follows, base64-decoded and written in hexadecimal again, is the string in lower case
  (the string itself when it was in lower case).
\<close>

theorem transcode_roundtrip:
  assumes len: "length h = 64" and hex: "\<forall>c\<in>set h. isHexDigit c"
    and s: "s = h \<or> s = ''sha256:'' @ h"
  shows "\<exists>nix bytes. convertOllamaHashToNixHash s = Inr nix
           \<and> prefix ''sha256-'' nix
           \<and> base64_Decode (drop (length ''sha256-'') nix) = Some bytes
           \<and> hex_EncodeToString bytes = ToLower h
           \<and> ((\<forall>c\<in>set h. c \<in> set ''0123456789abcdef'') \<longrightarrow> hex_EncodeToString bytes = h)"
proof -
  from s hex have p: "payload s = h"
    using payload_hex[of h] payload_prefixed[of h] by auto
  from len hex have ok: "snd (hex_Decode h) = None"
    using hex_Decode_error_iff[of h] by auto
  define bs where "bs = fst (hex_Decode h)"
  from ok have d: "hex_Decode h = (bs, None)" by (simp add: bs_def prod_eq_iff)
  have c: "convertOllamaHashToNixHash s = Inr (''sha256-'' @ base64_Encode bs)"
    by (simp add: convertOllamaHashToNixHash_def TrimPrefix_payload p hex_DecodeString_def d)
  have r: "hex_EncodeToString bs = ToLower h"
    unfolding bs_def using ok by (rule hex_roundtrip)
  show ?thesis
    using c r base64_roundtrip[of bs] ToLower_lower[of h] by auto
qed

theorem transcode_roundtrip_witness:
  "length ''B559938AB7A0392FC9EA9675b82280f2a15669ec3e0e0fc491c9cb0a7681cf94'' = 64
   \<and> (\<exists>nix bytes.
        convertOllamaHashToNixHash
          ''sha256:B559938AB7A0392FC9EA9675b82280f2a15669ec3e0e0fc491c9cb0a7681cf94'' = Inr nix
        \<and> prefix ''sha256-'' nix
        \<and> base64_Decode (drop (length ''sha256-'') nix) = Some bytes
        \<and> hex_EncodeToString bytes
            = ''b559938ab7a0392fc9ea9675b82280f2a15669ec3e0e0fc491c9cb0a7681cf94'')"
proof -
  let ?h = "''B559938AB7A0392FC9EA9675b82280f2a15669ec3e0e0fc491c9cb0a7681cf94''"
  have len: "length ?h = 64" by simp
  have hex: "\<forall>c\<in>set ?h. isHexDigit c" by (simp add: isHexDigit_def)
  have low: "ToLower ?h = ''b559938ab7a0392fc9ea9675b82280f2a15669ec3e0e0fc491c9cb0a7681cf94''"
    by (simp add: ToLower_def toLowerByte_def char_of_def bit_Suc_0_iff)
  from transcode_roundtrip[OF len hex, of "''sha256:'' @ ?h"] len low
  show ?thesis by simp
qed

section \<open>The identifier parser\<close>

lemma IndexByte_absent: "c \<notin> set s \<Longrightarrow> IndexByte s c = None"
  by (induction s) auto

lemma IndexByte_first: "c \<notin> set n \<Longrightarrow> IndexByte (n @ c # v) c = Some (length n)"
  by (induction n) auto

lemma SplitN2_length: "length (SplitN2 s c) = 1 \<or> length (SplitN2 s c) = 2"
  by (simp add: SplitN2_def Let_def split: option.splits)

lemma parseModel_no_colon: "CHR '':'' \<notin> set s \<Longrightarrow> parseModel s = (s, ''latest'')"
  by (simp add: parseModel_def SplitN2_def Let_def IndexByte_absent)

lemma parseModel_colon:
  "CHR '':'' \<notin> set n \<Longrightarrow> parseModel (n @ CHR '':'' # v) = (n, v)"
  by (simp add: parseModel_def SplitN2_def Let_def IndexByte_first)

text \<open>
  Claim C7. Parsing a model identifier splits it at the first colon only into name and
  version, and the version is \<open>latest\<close> when there is no colon: \<open>mistral-nemo\<close>
  gives (mistral-nemo, latest), \<open>mistral-nemo:7b\<close> gives (mistral-nemo, 7b), and
  \<open>a:b:c\<close> gives (a, b:c).
\<close>

theorem parse_first_colon:
  "(CHR '':'' \<notin> set s \<longrightarrow> parseModel s = (s, ''latest''))
   \<and> (CHR '':'' \<notin> set n \<longrightarrow> parseModel (n @ '':'' @ v) = (n, v))
   \<and> parseModel ''mistral-nemo'' = (''mistral-nemo'', ''latest'')
   \<and> parseModel ''mistral-nemo:7b'' = (''mistral-nemo'', ''7b'')
   \<and> parseModel ''a:b:c'' = (''a'', ''b:c'')"
proof -
  have "parseModel ''mistral-nemo'' = (''mistral-nemo'', ''latest'')"
    by (rule parseModel_no_colon) simp
  moreover have "parseModel (''mistral-nemo'' @ CHR '':'' # ''7b'') = (''mistral-nemo'', ''7b'')"
    by (rule parseModel_colon) simp
  moreover have "parseModel (''a'' @ CHR '':'' # ''b:c'') = (''a'', ''b:c'')"
    by (rule parseModel_colon) simp
  ultimately show ?thesis
    using parseModel_no_colon[of s] parseModel_colon[of n v] by simp
qed

theorem parse_first_colon_witness:
  "CHR '':'' \<notin> set ''llama3'' \<and> parseModel ''llama3'' = (''llama3'', ''latest'')
   \<and> CHR '':'' \<notin> set ''x'' \<and> parseModel ''x:y:z:'' = (''x'', ''y:z:'')"
  using parse_first_colon[of "''llama3''" "''x''" "''y:z:''"] by simp

section \<open>Runs: properties\<close>

lemma fetched_serving:
  "flagRegistry fl \<noteq> [] \<Longrightarrow> flagModel fl \<noteq> [] \<Longrightarrow> length s \<le> 512 \<Longrightarrow>
   fetched fl (serving s m)
     = Some (body_of s, m, map of_char s, \<lparr>pending = [], final = LibError ''EOF''\<rparr>)"
  by (simp add: fetched_def serving_def decoder_returning_def body_of_def tee_Read_def
        body_Read_def)

lemma main_cases:
  "main fl ev p =
     (case run fl ev p of
        (Some err, p') \<Rightarrow> (1, p'\<lparr>stdout := stdout p' @ Error err @ ''\<newline>''\<rparr>)
      | (None, p') \<Rightarrow> (0, p'))"
  by (simp add: main_def)

lemma run_ok_fetched:
  assumes "run fl ev p = (None, p')"
  shows "\<exists>resp m hashed rest.
           fetched fl ev = Some (resp, m, hashed, rest)
           \<and> (\<forall>l\<in>set (Layers m). validHex (payload (Digest l)))
           \<and> buildRecipe (flagRegistry fl) (fst (parseModel (flagModel fl)))
                (snd (parseModel (flagModel fl))) (manifestURL_for fl) hashed m
              = Inr (recipeLines (flagRegistry fl) (fst (parseModel (flagModel fl)))
                  (snd (parseModel (flagModel fl))) (manifestURL_for fl) hashed (Layers m))
           \<and> p' = (called fl p)\<lparr>stdout := stdout p
              @ String (recipeLines (flagRegistry fl) (fst (parseModel (flagModel fl)))
                  (snd (parseModel (flagModel fl))) (manifestURL_for fl) hashed (Layers m))
              @ ''\<newline>''\<rparr>"
proof (cases "fetched fl ev")
  case None
  from run_not_fetched[OF None, of p] assms show ?thesis by auto
next
  case (Some t)
  obtain resp m hashed rest where t: "t = (resp, m, hashed, rest)" by (cases t)
  from Some t have f: "fetched fl ev = Some (resp, m, hashed, rest)" by simp
  have v: "\<forall>l\<in>set (Layers m). validHex (payload (Digest l))"
    using run_fetched[OF f, of p] assms by (auto split: if_splits)
  from run_fetched[OF f, of p] assms v f buildRecipe_ok[OF v] show ?thesis by auto
qed

lemma blocks_nth:
  "\<forall>b\<in>set bs. length b = 5 \<Longrightarrow> i < length bs \<Longrightarrow>
     take 5 (drop (5 * i) (concat bs @ rest)) = bs ! i"
proof (induction bs arbitrary: i)
  case Nil
  then show ?case by simp
next
  case (Cons b bs)
  show ?case
  proof (cases i)
    case 0
    with Cons.prems show ?thesis by simp
  next
    case (Suc j)
    with Cons.prems have "take 5 (drop (5 * j) (concat bs @ rest)) = bs ! j"
      by (intro Cons.IH) auto
    moreover have "drop (5 * i) (concat (b # bs) @ rest) = drop (5 * j) (concat bs @ rest)"
      using Cons.prems Suc by simp
    ultimately show ?thesis using Suc by simp
  qed
qed

lemma recipeLines_block:
  assumes "i < length ls"
  shows "take 5 (drop (4 + 5 * i) (recipeLines r mo v u h ls)) = blobBlock r i (ls ! i)"
proof -
  let ?bs = "map (\<lambda>i. blobBlock r i (ls ! i)) [0..<length ls]"
  have len: "\<forall>b\<in>set ?bs. length b = 5" by (auto simp: blobBlock_def)
  let ?after = "concat ?bs @ [''\<newline>'', ''  # Fetch the manifest file.\<newline>'']
     @ manifestBlockLines u h
     @ joinOpen
     @ map pathLine [0..<length ls] @ [''      manifestFile\<newline>'']
     @ scriptOpen
     @ map linkLine [0..<length ls]
     @ recipeTail r mo v"
  have "drop 4 (recipeLines r mo v u h ls) = ?after"
    by (simp add: recipeLines_def recipeHead_def del: upt_Suc)
  moreover have "drop (4 + 5 * i) (recipeLines r mo v u h ls)
      = drop (5 * i) (drop 4 (recipeLines r mo v u h ls))"
    by (simp add: add.commute)
  ultimately have "drop (4 + 5 * i) (recipeLines r mo v u h ls) = drop (5 * i) ?after"
    by simp
  then show ?thesis
    using blocks_nth[OF len, of i] assms by (simp del: upt_Suc)
qed

lemma run_serving_ok:
  assumes "flagRegistry fl \<noteq> []" "flagModel fl \<noteq> []" "length s \<le> 512"
    and "\<forall>l\<in>set (Layers m). validHex (payload (Digest l))"
  shows "run fl (serving s m) p =
      (None, (called fl p)\<lparr>stdout := stdout p
              @ String (recipeLines (flagRegistry fl) (fst (parseModel (flagModel fl)))
                  (snd (parseModel (flagModel fl))) (manifestURL_for fl) (map of_char s) (Layers m))
              @ ''\<newline>''\<rparr>)"
  using run_fetched[OF fetched_serving[OF assms(1,2,3)], of m p] assms(4) by simp

lemma fetched_serving_pieces:
  "flagRegistry fl \<noteq> [] \<Longrightarrow> flagModel fl \<noteq> [] \<Longrightarrow> length s \<le> 512 \<Longrightarrow> s \<noteq> [] \<Longrightarrow>
   fetched fl (serving_pieces (s # ss) m)
     = Some (\<lparr>pending = map (map of_char) (s # ss), final = LibError ''EOF''\<rparr>, m,
         map of_char s, \<lparr>pending = map (map of_char) ss, final = LibError ''EOF''\<rparr>)"
  by (simp add: fetched_def serving_pieces_def decoder_returning_def tee_Read_def body_Read_def)

text \<open>
  Claim C3. A successful run on a manifest with N layers (N = 0 included) builds a recipe
  with exactly N blob fetch declarations, named \<open>blob_0\<close> to \<open>blob_{N-1}\<close>, the block
  at position i made from the layer at position i; exactly one manifest fetch declaration;
  exactly N + 1 symbols in the paths list, the blobs in the same order and then the
  manifest; and a symlink script that names the same blobs in the same order. When the
  flags have no line feed in them, the lines of the printed text are the lines given to
  the builder, one each, so the text has exactly these N blob declarations.
\<close>

theorem recipe_counts:
  assumes "run fl ev p = (None, p')"
  shows "\<exists>resp m hashed rest sb.
      fetched fl ev = Some (resp, m, hashed, rest)
    \<and> buildRecipe (flagRegistry fl) (fst (parseModel (flagModel fl)))
         (snd (parseModel (flagModel fl))) (manifestURL_for fl) hashed m = Inr sb
    \<and> stdout p' = stdout p @ String sb @ ''\<newline>''
    \<and> filter isBlobDecl sb = map blobDecl [0..<length (Layers m)]
    \<and> (\<forall>i<length (Layers m).
          take 5 (drop (4 + 5 * i) sb) = blobBlock (flagRegistry fl) i (Layers m ! i))
    \<and> filter (\<lambda>c. c = manifestDecl) sb = [manifestDecl]
    \<and> pathsList sb = map pathLine [0..<length (Layers m)] @ [''      manifestFile\<newline>'']
    \<and> length (pathsList sb) = length (Layers m) + 1
    \<and> filter isBlobLink sb = map linkLine [0..<length (Layers m)]
    \<and> (CHR ''\<newline>'' \<notin> set (flagRegistry fl) \<and> CHR ''\<newline>'' \<notin> set (flagModel fl) \<longrightarrow>
          lines_of (String sb @ ''\<newline>'') = map butlast sb @ [[]]
          \<and> filter (\<lambda>l. isBlobDecl (l @ ''\<newline>'')) (lines_of (String sb @ ''\<newline>''))
              = map (\<lambda>i. butlast (blobDecl i)) [0..<length (Layers m)])"
proof -
  from run_ok_fetched[OF assms] obtain resp m hashed rest where
    f: "fetched fl ev = Some (resp, m, hashed, rest)"
    and b: "buildRecipe (flagRegistry fl) (fst (parseModel (flagModel fl)))
                (snd (parseModel (flagModel fl))) (manifestURL_for fl) hashed m
              = Inr (recipeLines (flagRegistry fl) (fst (parseModel (flagModel fl)))
                  (snd (parseModel (flagModel fl))) (manifestURL_for fl) hashed (Layers m))"
    and p': "p' = (called fl p)\<lparr>stdout := stdout p
              @ String (recipeLines (flagRegistry fl) (fst (parseModel (flagModel fl)))
                  (snd (parseModel (flagModel fl))) (manifestURL_for fl) hashed (Layers m))
              @ ''\<newline>''\<rparr>"
    by blast
  from p' have out: "stdout p' = stdout p
              @ String (recipeLines (flagRegistry fl) (fst (parseModel (flagModel fl)))
                  (snd (parseModel (flagModel fl))) (manifestURL_for fl) hashed (Layers m))
              @ ''\<newline>''"
    by simp
  have text_lines: "lines_of (String (recipeLines (flagRegistry fl) (fst (parseModel (flagModel fl)))
                  (snd (parseModel (flagModel fl))) (manifestURL_for fl) hashed (Layers m))
                @ ''\<newline>'')
        = map butlast (recipeLines (flagRegistry fl) (fst (parseModel (flagModel fl)))
                  (snd (parseModel (flagModel fl))) (manifestURL_for fl) hashed (Layers m)) @ [[]]
      \<and> filter (\<lambda>l. isBlobDecl (l @ ''\<newline>''))
          (lines_of (String (recipeLines (flagRegistry fl) (fst (parseModel (flagModel fl)))
                  (snd (parseModel (flagModel fl))) (manifestURL_for fl) hashed (Layers m))
                @ ''\<newline>''))
        = map (\<lambda>i. butlast (blobDecl i)) [0..<length (Layers m)]"
    if n: "CHR ''\<newline>'' \<notin> set (flagRegistry fl) \<and> CHR ''\<newline>'' \<notin> set (flagModel fl)"
  proof -
    from n have r: "CHR ''\<newline>'' \<notin> set (flagRegistry fl)" by simp
    from n parseModel_chars(1)[of "flagModel fl"]
    have mo: "CHR ''\<newline>'' \<notin> set (fst (parseModel (flagModel fl)))" by blast
    from n parseModel_chars(2)[of "flagModel fl"]
    have v: "CHR ''\<newline>'' \<notin> set (snd (parseModel (flagModel fl)))" by auto
    from recipe_text_lines[OF r mo v] recipe_text_blobDecls[OF r mo v] show ?thesis by simp
  qed
  show ?thesis
    apply (intro exI conjI)
             apply (rule f)
            apply (rule b)
           apply (rule out)
          apply (rule recipeLines_blobDecls)
         apply (simp add: recipeLines_block)
        apply (rule recipeLines_manifestDecl)
       apply (rule recipeLines_pathsList)
      apply (simp add: recipeLines_pathsList)
     apply (rule recipeLines_links)
    apply (rule impI)
    apply (rule text_lines)
    apply assumption
    done
qed

theorem recipe_counts_witness:
  "fst (run \<lparr>flagRegistry = ''registry.ollama.ai'', flagModel = ''mistral-nemo:7b''\<rparr>
          (serving short_json (manifest_of [''sha256:ab'', ''''])) fresh) = None
   \<and> CHR ''\<newline>'' \<notin> set ''registry.ollama.ai'' \<and> CHR ''\<newline>'' \<notin> set ''mistral-nemo:7b''
   \<and> (\<exists>resp m hashed rest sb.
      fetched \<lparr>flagRegistry = ''registry.ollama.ai'', flagModel = ''mistral-nemo:7b''\<rparr>
          (serving short_json (manifest_of [''sha256:ab'', ''''])) = Some (resp, m, hashed, rest)
    \<and> length (Layers m) = 2
    \<and> filter isBlobDecl sb = map blobDecl [0..<length (Layers m)]
    \<and> length (pathsList sb) = length (Layers m) + 1
    \<and> filter isBlobLink sb = map linkLine [0..<length (Layers m)]
    \<and> filter (\<lambda>l. isBlobDecl (l @ ''\<newline>'')) (lines_of (String sb @ ''\<newline>''))
        = map (\<lambda>i. butlast (blobDecl i)) [0..<length (Layers m)])"
proof -
  let ?fl = "\<lparr>flagRegistry = ''registry.ollama.ai'', flagModel = ''mistral-nemo:7b''\<rparr>"
  let ?ev = "serving short_json (manifest_of [''sha256:ab'', ''''])"
  have v: "\<forall>l\<in>set (Layers (manifest_of [''sha256:ab'', ''''])). validHex (payload (Digest l))"
    by (simp add: manifest_of_def layer_of_def validHex_def payload_def isHexDigit_def)
  have r: "fst (run ?fl ?ev fresh) = None"
    by (subst run_serving_ok) (simp_all add: v short_json_def)
  then have h: "run ?fl ?ev fresh = (None, snd (run ?fl ?ev fresh))"
    by (simp add: prod_eq_iff)
  have f: "fetched ?fl ?ev = Some (body_of short_json, manifest_of [''sha256:ab'', ''''],
      map of_char short_json, \<lparr>pending = [], final = LibError ''EOF''\<rparr>)"
    by (rule fetched_serving) (simp_all add: short_json_def)
  have n: "CHR ''\<newline>'' \<notin> set ''registry.ollama.ai'' \<and> CHR ''\<newline>'' \<notin> set ''mistral-nemo:7b''"
    by simp
  from recipe_counts[OF h] obtain resp m hashed rest sb where
    a: "fetched ?fl ?ev = Some (resp, m, hashed, rest)"
    and c: "filter isBlobDecl sb = map blobDecl [0..<length (Layers m)]"
      "length (pathsList sb) = length (Layers m) + 1"
      "filter isBlobLink sb = map linkLine [0..<length (Layers m)]"
    and t: "CHR ''\<newline>'' \<notin> set (flagRegistry ?fl) \<and> CHR ''\<newline>'' \<notin> set (flagModel ?fl) \<longrightarrow>
          lines_of (String sb @ ''\<newline>'') = map butlast sb @ [[]]
          \<and> filter (\<lambda>l. isBlobDecl (l @ ''\<newline>'')) (lines_of (String sb @ ''\<newline>''))
              = map (\<lambda>i. butlast (blobDecl i)) [0..<length (Layers m)]"
    by blast
  from a f have m: "length (Layers m) = 2" by (auto simp: manifest_of_def)
  have n': "CHR ''\<newline>'' \<notin> set (flagRegistry ?fl) \<and> CHR ''\<newline>'' \<notin> set (flagModel ?fl)"
    by simp
  from t n' have t': "filter (\<lambda>l. isBlobDecl (l @ ''\<newline>'')) (lines_of (String sb @ ''\<newline>''))
              = map (\<lambda>i. butlast (blobDecl i)) [0..<length (Layers m)]"
    by blast
  from r n a m c t' show ?thesis by blast
qed

text \<open>
  Claim C2. In every successful run, the bytes given to the hash are exactly the bytes
  that the decoding took from the response body (the body is these bytes followed by what
  is left of it), and the hash line of the manifest's fetch declaration is \<open>sha256-\<close>
  followed by the standard padded base64 encoding of the SHA-256 digest of these bytes, in
  double quotes.
\<close>

theorem manifest_hash_of_consumed_bytes:
  assumes "run fl ev p = (None, p')"
  shows "\<exists>resp m hashed rest sb.
      fetched fl ev = Some (resp, m, hashed, rest)
    \<and> concat (pending resp) = hashed @ concat (pending rest)
    \<and> buildRecipe (flagRegistry fl) (fst (parseModel (flagModel fl)))
         (snd (parseModel (flagModel fl))) (manifestURL_for fl) hashed m = Inr sb
    \<and> stdout p' = stdout p @ String sb @ ''\<newline>''
    \<and> manifestBlock sb =
        [manifestDecl, curlOptsList, urlLine (URL_String (manifestURL_for fl)),
         ''    hash = '' @ [CHR 0x22] @ ''sha256-'' @ base64_Encode (sha256_Sum hashed)
           @ [CHR 0x22] @ '';\<newline>'',
         ''  };\<newline>'']"
proof -
  from run_ok_fetched[OF assms] obtain resp m hashed rest where
    f: "fetched fl ev = Some (resp, m, hashed, rest)"
    and b: "buildRecipe (flagRegistry fl) (fst (parseModel (flagModel fl)))
                (snd (parseModel (flagModel fl))) (manifestURL_for fl) hashed m
              = Inr (recipeLines (flagRegistry fl) (fst (parseModel (flagModel fl)))
                  (snd (parseModel (flagModel fl))) (manifestURL_for fl) hashed (Layers m))"
    and p': "p' = (called fl p)\<lparr>stdout := stdout p
              @ String (recipeLines (flagRegistry fl) (fst (parseModel (flagModel fl)))
                  (snd (parseModel (flagModel fl))) (manifestURL_for fl) hashed (Layers m))
              @ ''\<newline>''\<rparr>"
    by blast
  from p' have out: "stdout p' = stdout p
              @ String (recipeLines (flagRegistry fl) (fst (parseModel (flagModel fl)))
                  (snd (parseModel (flagModel fl))) (manifestURL_for fl) hashed (Layers m))
              @ ''\<newline>''"
    by simp
  from fetched_Some[OF f] have "run_tee (json_Decode ev) (resp, []) = (Inr m, rest, hashed)"
    by simp
  from run_tee_consumed[OF this] have c: "concat (pending resp) = hashed @ concat (pending rest)"
    by simp
  have mb: "manifestBlock (recipeLines (flagRegistry fl) (fst (parseModel (flagModel fl)))
                  (snd (parseModel (flagModel fl))) (manifestURL_for fl) hashed (Layers m)) =
        [manifestDecl, curlOptsList, urlLine (URL_String (manifestURL_for fl)),
         ''    hash = '' @ [CHR 0x22] @ ''sha256-'' @ base64_Encode (sha256_Sum hashed)
           @ [CHR 0x22] @ '';\<newline>'',
         ''  };\<newline>'']"
    unfolding recipeLines_manifestBlock manifestBlockLines_def hashLine_def Quote_hash by simp
  show ?thesis
    apply (intro exI conjI)
        apply (rule f)
       apply (rule c)
      apply (rule b)
     apply (rule out)
    apply (rule mb)
    done
qed

theorem manifest_hash_of_consumed_bytes_witness:
  "fst (run \<lparr>flagRegistry = ''registry.ollama.ai'', flagModel = ''mistral-nemo:7b''\<rparr>
          (serving_pieces [short_json, ''\<newline>''] (manifest_of [''sha256:ab'', ''''])) fresh) = None
   \<and> (\<exists>resp m hashed rest sb.
      fetched \<lparr>flagRegistry = ''registry.ollama.ai'', flagModel = ''mistral-nemo:7b''\<rparr>
          (serving_pieces [short_json, ''\<newline>''] (manifest_of [''sha256:ab'', '''']))
        = Some (resp, m, hashed, rest)
    \<and> hashed = map of_char short_json
    \<and> concat (pending resp) = hashed @ concat (pending rest)
    \<and> concat (pending rest) = map of_char ''\<newline>''
    \<and> manifestBlock sb ! 3 =
         ''    hash = '' @ [CHR 0x22] @ ''sha256-'' @ base64_Encode (sha256_Sum hashed)
           @ [CHR 0x22] @ '';\<newline>'')"
proof -
  let ?fl = "\<lparr>flagRegistry = ''registry.ollama.ai'', flagModel = ''mistral-nemo:7b''\<rparr>"
  let ?ev = "serving_pieces [short_json, ''\<newline>''] (manifest_of [''sha256:ab'', ''''])"
  have v: "\<forall>l\<in>set (Layers (manifest_of [''sha256:ab'', ''''])). validHex (payload (Digest l))"
    by (simp add: manifest_of_def layer_of_def validHex_def payload_def isHexDigit_def)
  have f: "fetched ?fl ?ev = Some (\<lparr>pending = map (map of_char) [short_json, ''\<newline>''],
        final = LibError ''EOF''\<rparr>, manifest_of [''sha256:ab'', ''''],
      map of_char short_json, \<lparr>pending = map (map of_char) [''\<newline>''], final = LibError ''EOF''\<rparr>)"
    by (rule fetched_serving_pieces) (simp_all add: short_json_def)
  have r: "fst (run ?fl ?ev fresh) = None"
    using run_fetched[OF f, of fresh] v by simp
  then have h: "run ?fl ?ev fresh = (None, snd (run ?fl ?ev fresh))"
    by (simp add: prod_eq_iff)
  from manifest_hash_of_consumed_bytes[OF h] obtain resp m hashed rest sb where
    a: "fetched ?fl ?ev = Some (resp, m, hashed, rest)"
    and c: "concat (pending resp) = hashed @ concat (pending rest)"
    and mb: "manifestBlock sb =
        [manifestDecl, curlOptsList, urlLine (URL_String (manifestURL_for ?fl)),
         ''    hash = '' @ [CHR 0x22] @ ''sha256-'' @ base64_Encode (sha256_Sum hashed)
           @ [CHR 0x22] @ '';\<newline>'',
         ''  };\<newline>'']"
    by blast
  from a f have hs: "hashed = map of_char short_json" by simp
  from a f have rs: "concat (pending rest) = map of_char ''\<newline>''" by auto
  from mb have "manifestBlock sb ! 3 =
         ''    hash = '' @ [CHR 0x22] @ ''sha256-'' @ base64_Encode (sha256_Sum hashed)
           @ [CHR 0x22] @ '';\<newline>''"
    by simp
  with r a hs c rs show ?thesis by blast
qed

lemma run_bad_digest:
  assumes "fetched fl ev = Some (resp, m, hashed, rest)"
    and "\<exists>l\<in>set (Layers m). \<not> validHex (payload (Digest l))"
  shows "\<exists>e. run fl ev p = (Some (Wrapped ''failed to convert blob hash: '' e), called fl p)"
  using run_fetched[OF assms(1), of p] assms(2) by auto

lemma stdout_called: "stdout (called fl p) = stdout p"
  by (simp add: called_def)

lemma main_exit_code: "fst (main fl ev p) = (if fst (run fl ev p) = None then 0 else 1)"
  by (cases "run fl ev p") (auto simp: main_cases split: option.splits)

lemma run_http_calls:
  "http_calls (snd (run fl ev p)) =
     (if flagRegistry fl = [] \<or> flagModel fl = [] then http_calls p
      else http_calls p @ [URL_String (manifestURL_for fl)])"
  by (simp add: run_cases called_def split: sum.splits prod.splits)

lemma main_http_calls: "http_calls (snd (main fl ev p)) = http_calls (snd (run fl ev p))"
  by (cases "run fl ev p") (auto simp: main_cases split: option.splits)

lemma main_invalid_flags:
  "flagRegistry fl = [] \<or> flagModel fl = [] \<Longrightarrow>
     main fl ev p = (1, p\<lparr>stdout := stdout p
        @ (if flagRegistry fl = [] then ''registry is required'' else ''model is required'')
        @ ''\<newline>''\<rparr>)"
  by (auto simp: main_cases run_cases)

lemma run_tee_map:
  "run_tee (map_reading f d) s = (case run_tee d s of (x, s') \<Rightarrow> (f x, s'))"
  by (induction d arbitrary: s) (auto split: prod.splits)

lemma writeBlob_digest:
  "Digest l = Digest l' \<Longrightarrow> writeBlob r i l sb = writeBlob r i l' sb"
  by (simp add: writeBlob_def)

lemma writeBlobs_digest:
  "map Digest ls = map Digest ls' \<Longrightarrow> writeBlobs r i ls sb = writeBlobs r i ls' sb"
proof (induction ls arbitrary: ls' i sb)
  case Nil
  then show ?case by simp
next
  case (Cons l ls)
  then obtain l' rest where ls': "ls' = l' # rest" "Digest l = Digest l'"
    "map Digest ls = map Digest rest"
    by (cases ls') auto
  with Cons.IH[OF ls'(3)] writeBlob_digest[OF ls'(2)] show ?case
    by (simp split: sum.splits)
qed

lemma buildRecipe_digests:
  assumes "map Digest (Layers m) = map Digest (Layers m')"
  shows "buildRecipe r mo v u h m = buildRecipe r mo v u h m'"
proof -
  from assms have len: "length (Layers m) = length (Layers m')"
    by (metis length_map)
  show ?thesis
    unfolding buildRecipe_unfold writeBlobs_digest[OF assms] len ..
qed

text \<open>
  Claim C9. Every run ends in one of two ways. Either the exit code is 0 and what was
  written to standard output is the complete recipe for the decoded manifest, from its
  first line to its last, and a line feed. Or the exit code is 1 and what was written is
  one error message and a line feed, the message starting with the text of the stage that
  failed, and not with the recipe's opening: nothing of the recipe is printed, also when
  the hash conversion of a later layer fails.
\<close>

theorem all_or_nothing:
  "\<exists>code p'. main fl ev p = (code, p')
     \<and> ((code = 0
          \<and> (\<exists>resp m hashed rest.
                fetched fl ev = Some (resp, m, hashed, rest)
                \<and> stdout p' = stdout p
                     @ String (recipeLines (flagRegistry fl) (fst (parseModel (flagModel fl)))
                         (snd (parseModel (flagModel fl))) (manifestURL_for fl) hashed (Layers m))
                     @ ''\<newline>''))
        \<or> (code = 1
          \<and> (\<exists>err. fst (run fl ev p) = Some err
                \<and> stdout p' = stdout p @ Error err @ ''\<newline>''
                \<and> (prefix ''registry is required'' (Error err)
                     \<or> prefix ''model is required'' (Error err)
                     \<or> prefix ''failed to download manifest: '' (Error err)
                     \<or> prefix ''failed to decode manifest: '' (Error err)
                     \<or> prefix ''failed to convert blob hash: '' (Error err))
                \<and> \<not> prefix ''{ pkgs'' (Error err @ ''\<newline>''))))"
proof (cases "fetched fl ev")
  case None
  from run_not_fetched[OF None, of p] obtain err where
    r: "run fl ev p = (Some err, if flagRegistry fl = [] \<or> flagModel fl = [] then p else called fl p)"
    and e: "err = Errorf ''registry is required'' \<or> err = Errorf ''model is required''
                \<or> (\<exists>e. err = Wrapped ''failed to download manifest: '' e)
                \<or> (\<exists>e. err = Wrapped ''failed to decode manifest: '' e)"
    by blast
  from e have pre: "prefix ''registry is required'' (Error err)
                     \<or> prefix ''model is required'' (Error err)
                     \<or> prefix ''failed to download manifest: '' (Error err)
                     \<or> prefix ''failed to decode manifest: '' (Error err)
                     \<or> prefix ''failed to convert blob hash: '' (Error err)"
    by auto
  from e have np: "\<not> prefix ''{ pkgs'' (Error err @ ''\<newline>'')" by auto
  from r have "main fl ev p = (1, (if flagRegistry fl = [] \<or> flagModel fl = [] then p else called fl p)
      \<lparr>stdout := stdout p @ Error err @ ''\<newline>''\<rparr>)"
    by (simp add: main_cases stdout_called)
  with r pre np show ?thesis by simp
next
  case (Some t)
  obtain resp m hashed rest where t: "t = (resp, m, hashed, rest)" by (cases t)
  from Some t have f: "fetched fl ev = Some (resp, m, hashed, rest)" by simp
  show ?thesis
  proof (cases "\<forall>l\<in>set (Layers m). validHex (payload (Digest l))")
    case True
    with run_fetched[OF f, of p] f show ?thesis
      by (simp add: main_cases)
  next
    case False
    then have "\<exists>l\<in>set (Layers m). \<not> validHex (payload (Digest l))" by simp
    from run_bad_digest[OF f this, of p] obtain e where
      r: "run fl ev p = (Some (Wrapped ''failed to convert blob hash: '' e), called fl p)"
      by blast
    then show ?thesis
      by (simp add: main_cases stdout_called)
  qed
qed

theorem all_or_nothing_witness:
  "main \<lparr>flagRegistry = ''registry.ollama.ai'', flagModel = ''''\<rparr> (serving ''{}'' (manifest_of []))
      fresh = (1, \<lparr>http_calls = [], stdout = ''model is required\<newline>''\<rparr>)
   \<and> fst (main \<lparr>flagRegistry = ''registry.ollama.ai'', flagModel = ''m''\<rparr>
          (serving ''{}'' (manifest_of [''sha256:0g''])) fresh) = 1
   \<and> fst (main \<lparr>flagRegistry = ''registry.ollama.ai'', flagModel = ''m''\<rparr>
          (serving ''{}'' (manifest_of [''sha256:00''])) fresh) = 0"
proof -
  let ?fl = "\<lparr>flagRegistry = ''registry.ollama.ai'', flagModel = ''m''\<rparr>"
  have a: "main \<lparr>flagRegistry = ''registry.ollama.ai'', flagModel = ''''\<rparr>
      (serving ''{}'' (manifest_of [])) fresh
      = (1, \<lparr>http_calls = [], stdout = ''model is required\<newline>''\<rparr>)"
    by (simp add: main_cases run_cases fresh_def)
  have f: "\<And>m. fetched ?fl (serving ''{}'' m)
      = Some (body_of ''{}'', m, map of_char ''{}'', \<lparr>pending = [], final = LibError ''EOF''\<rparr>)"
    by (rule fetched_serving) simp_all
  have b: "fst (main ?fl (serving ''{}'' (manifest_of [''sha256:0g''])) fresh) = 1"
    using run_bad_digest[OF f, of "manifest_of [''sha256:0g'']" fresh]
    by (auto simp: main_cases manifest_of_def layer_of_def validHex_def payload_def isHexDigit_def)
  have c: "fst (main ?fl (serving ''{}'' (manifest_of [''sha256:00''])) fresh) = 0"
    using all_or_nothing[of ?fl "serving ''{}'' (manifest_of [''sha256:00''])" fresh]
      run_fetched[OF f, of "manifest_of [''sha256:00'']" fresh]
    by (auto simp: main_cases manifest_of_def layer_of_def validHex_def payload_def isHexDigit_def)
  from a b c show ?thesis by simp
qed

text \<open>
  Claim C5, as the code has it. Once the manifest is decoded, the run fails exactly when
  some layer digest, after the removal of one leading \<open>sha256:\<close>, has a character that
  is not a hexadecimal digit or has odd length; the error is then that of the blob hash
  conversion, and only its message is printed. The length of the digest is not checked:
  valid hexadecimal text of any even length is accepted.
\<close>

theorem digest_error_iff_not_valid_hex:
  assumes "fetched fl ev = Some (resp, m, hashed, rest)"
  shows "(fst (main fl ev p) = 1 \<longleftrightarrow> (\<exists>l\<in>set (Layers m). \<not> validHex (payload (Digest l))))
       \<and> (fst (main fl ev p) = 0 \<longleftrightarrow> (\<forall>l\<in>set (Layers m). validHex (payload (Digest l))))
       \<and> ((\<exists>l\<in>set (Layers m). \<not> validHex (payload (Digest l))) \<longrightarrow>
            (\<exists>e. run fl ev p = (Some (Wrapped ''failed to convert blob hash: '' e), called fl p))
            \<and> stdout (snd (main fl ev p))
                = stdout p @ ''failed to convert blob hash: ''
                    @ Error (case fst (run fl ev p) of Some (Wrapped msg e) \<Rightarrow> e) @ ''\<newline>'')"
proof (cases "\<forall>l\<in>set (Layers m). validHex (payload (Digest l))")
  case True
  with run_fetched[OF assms, of p] show ?thesis
    by (simp add: main_cases)
next
  case False
  then have b: "\<exists>l\<in>set (Layers m). \<not> validHex (payload (Digest l))" by simp
  from run_bad_digest[OF assms b, of p] obtain e where
    r: "run fl ev p = (Some (Wrapped ''failed to convert blob hash: '' e), called fl p)"
    by blast
  with False b show ?thesis
    by (simp add: main_cases stdout_called)
qed

theorem digest_error_iff_not_valid_hex_witness:
  "fetched \<lparr>flagRegistry = ''registry.ollama.ai'', flagModel = ''m''\<rparr>
       (serving ''{}'' (manifest_of [''sha256:00'', ''sha256:0g'']))
     = Some (body_of ''{}'', manifest_of [''sha256:00'', ''sha256:0g''], map of_char ''{}'',
         \<lparr>pending = [], final = LibError ''EOF''\<rparr>)
   \<and> \<not> validHex (payload ''sha256:0g'')
   \<and> fst (main \<lparr>flagRegistry = ''registry.ollama.ai'', flagModel = ''m''\<rparr>
          (serving ''{}'' (manifest_of [''sha256:00'', ''sha256:0g''])) fresh) = 1"
proof -
  let ?fl = "\<lparr>flagRegistry = ''registry.ollama.ai'', flagModel = ''m''\<rparr>"
  let ?m = "manifest_of [''sha256:00'', ''sha256:0g'']"
  have f: "fetched ?fl (serving ''{}'' ?m)
      = Some (body_of ''{}'', ?m, map of_char ''{}'', \<lparr>pending = [], final = LibError ''EOF''\<rparr>)"
    by (rule fetched_serving) simp_all
  have n: "\<not> validHex (payload ''sha256:0g'')"
    by (simp add: validHex_def payload_def isHexDigit_def)
  from digest_error_iff_not_valid_hex[OF f, of fresh] n f show ?thesis
    by (simp add: manifest_of_def layer_of_def)
qed

text \<open>
  Claim C5 as stated asks for a failure on every digest that is not 64 hexadecimal
  digits. The run below has a layer digest of two hexadecimal digits and an empty one,
  and exits with code 0.
\<close>

theorem wrong_length_digest_accepted:
  "fst (main \<lparr>flagRegistry = ''registry.ollama.ai'', flagModel = ''mistral-nemo''\<rparr>
          (serving short_json (manifest_of [''sha256:ab'', ''''])) fresh) = 0
   \<and> length (payload ''sha256:ab'') = 2 \<and> length (payload '''') = 0
   \<and> convertOllamaHashToNixHash ''sha256:ab'' = Inr ''sha256-qw==''
   \<and> convertOllamaHashToNixHash '''' = Inr ''sha256-''"
proof -
  let ?fl = "\<lparr>flagRegistry = ''registry.ollama.ai'', flagModel = ''mistral-nemo''\<rparr>"
  let ?m = "manifest_of [''sha256:ab'', '''']"
  have v: "\<forall>l\<in>set (Layers ?m). validHex (payload (Digest l))"
    by (simp add: manifest_of_def layer_of_def validHex_def payload_def isHexDigit_def)
  have "fst (run ?fl (serving short_json ?m) fresh) = None"
    by (subst run_serving_ok) (simp_all add: v short_json_def)
  then have "fst (main ?fl (serving short_json ?m) fresh) = 0"
    by (simp add: main_exit_code)
  moreover have "convertOllamaHashToNixHash ''sha256:ab'' = Inr ''sha256-qw=='' "
    by (simp add: convertOllamaHashToNixHash_def TrimPrefix_def HasPrefix_def hex_DecodeString_def
          reverseHexTable_def enc64_def encodeStd_def)
  moreover have "convertOllamaHashToNixHash '''' = Inr ''sha256-''"
    by (simp add: convertOllamaHashToNixHash_def TrimPrefix_def HasPrefix_def hex_DecodeString_def)
  ultimately show ?thesis by (simp add: payload_def)
qed

text \<open>
  Claim C8, as the code has it. With a missing or empty \<open>-model\<close> flag the program
  fails with exit code 1 at the validation step, with no call of \<open>http.Get\<close>. An
  identifier of the form \<open>:version\<close> is not empty and passes the validation: with a
  non-empty registry the manifest request is issued, for the empty name.
\<close>

theorem missing_model_fails_before_request:
  "(flagModel fl = [] \<longrightarrow>
      fst (main fl ev p) = 1 \<and> http_calls (snd (main fl ev p)) = http_calls p
      \<and> stdout (snd (main fl ev p))
          = stdout p @ (if flagRegistry fl = [] then ''registry is required''
                        else ''model is required'') @ ''\<newline>'')
   \<and> (flagRegistry fl \<noteq> [] \<and> flagModel fl = '':'' @ v \<longrightarrow>
        http_calls (snd (main fl ev p))
          = http_calls p @ [URL_String (manifestURL_of (flagRegistry fl) [] v)])"
proof -
  have 1: "fst (main fl ev p) = 1 \<and> http_calls (snd (main fl ev p)) = http_calls p
      \<and> stdout (snd (main fl ev p))
          = stdout p @ (if flagRegistry fl = [] then ''registry is required''
                        else ''model is required'') @ ''\<newline>''"
    if "flagModel fl = []"
    using that by (simp add: main_invalid_flags)
  have 2: "http_calls (snd (main fl ev p))
          = http_calls p @ [URL_String (manifestURL_of (flagRegistry fl) [] v)]"
    if a: "flagRegistry fl \<noteq> [] \<and> flagModel fl = '':'' @ v"
  proof -
    have "parseModel ([] @ CHR '':'' # v) = ([], v)" by (rule parseModel_colon) simp
    with a have "manifestURL_for fl = manifestURL_of (flagRegistry fl) [] v"
      by (simp add: manifestURL_for_def)
    with a show ?thesis
      by (simp add: main_http_calls run_http_calls)
  qed
  from 1 2 show ?thesis by blast
qed

theorem missing_model_fails_before_request_witness:
  "main \<lparr>flagRegistry = ''registry.ollama.ai'', flagModel = ''''\<rparr> (serving ''{}'' empty_manifest)
      fresh = (1, \<lparr>http_calls = [], stdout = ''model is required\<newline>''\<rparr>)
   \<and> http_calls (snd (main \<lparr>flagRegistry = ''registry.ollama.ai'', flagModel = '':''\<rparr>
        (serving ''{}'' empty_manifest) fresh))
       = [''https://registry.ollama.ai/v2/library//manifests/'']"
proof -
  have u: "URL_String (manifestURL_of ''registry.ollama.ai'' [] [])
      = ''https://registry.ollama.ai/v2/library//manifests/''"
    by code_simp
  from missing_model_fails_before_request[of
      "\<lparr>flagRegistry = ''registry.ollama.ai'', flagModel = ''''\<rparr>" "serving ''{}'' empty_manifest"
      fresh "[]"]
    missing_model_fails_before_request[of
      "\<lparr>flagRegistry = ''registry.ollama.ai'', flagModel = '':''\<rparr>" "serving ''{}'' empty_manifest"
      fresh "[]"]
  show ?thesis
    by (simp add: u prod_eq_iff fresh_def main_invalid_flags)
qed

text \<open>
  Claim C8 as stated asks for a failure before any request for every identifier with an
  empty name part. For \<open>:7b\<close> the name is empty, the request is issued, and the run
  below exits with code 0.
\<close>

theorem empty_name_request_issued:
  "fst (parseModel '':7b'') = []
   \<and> fst (main \<lparr>flagRegistry = ''registry.ollama.ai'', flagModel = '':7b''\<rparr>
          (serving ''{}'' empty_manifest) fresh) = 0
   \<and> http_calls (snd (main \<lparr>flagRegistry = ''registry.ollama.ai'', flagModel = '':7b''\<rparr>
          (serving ''{}'' empty_manifest) fresh))
       = [''https://registry.ollama.ai/v2/library//manifests/7b'']"
proof -
  let ?fl = "\<lparr>flagRegistry = ''registry.ollama.ai'', flagModel = '':7b''\<rparr>"
  have pm: "parseModel ([] @ CHR '':'' # ''7b'') = ([], ''7b'')" by (rule parseModel_colon) simp
  have u: "URL_String (manifestURL_of ''registry.ollama.ai'' [] ''7b'')
      = ''https://registry.ollama.ai/v2/library//manifests/7b''"
    by code_simp
  have "fst (run ?fl (serving ''{}'' empty_manifest) fresh) = None"
    by (subst run_serving_ok) (simp_all add: empty_manifest_def)
  then have "fst (main ?fl (serving ''{}'' empty_manifest) fresh) = 0"
    by (simp add: main_exit_code)
  moreover have "http_calls (snd (main ?fl (serving ''{}'' empty_manifest) fresh))
       = [''https://registry.ollama.ai/v2/library//manifests/7b'']"
    using pm by (simp add: main_http_calls run_http_calls manifestURL_for_def u fresh_def)
  ultimately show ?thesis using pm by simp
qed

text \<open>
  Claim C10. The recipe never depends on the manifest's config: the program behaves the
  same whatever the decoder puts in the \<open>Config\<close> field, and the builder gives the same
  recipe for any two manifests with the same sequence of layer digests.
\<close>

theorem config_unused:
  "main fl (ev\<lparr>json_Decode := map_reading (map_sum id (\<lambda>m. m\<lparr>Config := c\<rparr>)) (json_Decode ev)\<rparr>) p
     = main fl ev p
   \<and> buildRecipe r mo v u h (m\<lparr>Config := c\<rparr>) = buildRecipe r mo v u h m
   \<and> (map Digest (Layers m) = map Digest (Layers m')
        \<longrightarrow> buildRecipe r mo v u h m = buildRecipe r mo v u h m')"
proof -
  let ?ev = "ev\<lparr>json_Decode := map_reading (map_sum id (\<lambda>m. m\<lparr>Config := c\<rparr>)) (json_Decode ev)\<rparr>"
  have b: "\<And>m r mo v u h. buildRecipe r mo v u h (m\<lparr>Config := c\<rparr>) = buildRecipe r mo v u h m"
    by (rule buildRecipe_digests) simp
  have "run fl ?ev p = run fl ev p"
    by (simp add: run_cases run_tee_map b split: sum.splits prod.splits)
  then have "main fl ?ev p = main fl ev p" by (simp add: main_cases)
  with b buildRecipe_digests show ?thesis by blast
qed

theorem config_unused_witness:
  "map Digest (Layers (manifest_of [''sha256:ab'']))
     = map Digest (Layers \<lparr>SchemaVersion = 0, ManifestMediaType = [],
          Config = \<lparr>Digest = ''sha256:ab'', MediaType = [], Size = 0\<rparr>,
          Layers = [\<lparr>Digest = ''sha256:ab'', MediaType = [], Size = 0\<rparr>]\<rparr>)
   \<and> buildRecipe ''registry.ollama.ai'' ''m'' ''latest''
       (manifestURL_of ''registry.ollama.ai'' ''m'' ''latest'') [] (manifest_of [''sha256:ab''])
     = buildRecipe ''registry.ollama.ai'' ''m'' ''latest''
       (manifestURL_of ''registry.ollama.ai'' ''m'' ''latest'') []
         \<lparr>SchemaVersion = 0, ManifestMediaType = [],
          Config = \<lparr>Digest = ''sha256:ab'', MediaType = [], Size = 0\<rparr>,
          Layers = [\<lparr>Digest = ''sha256:ab'', MediaType = [], Size = 0\<rparr>]\<rparr>"
  using config_unused[of _ _ _ _ "''registry.ollama.ai''" "''m''" "''latest''"
      "manifestURL_of ''registry.ollama.ai'' ''m'' ''latest''" "[]" "manifest_of [''sha256:ab'']"
      "\<lparr>SchemaVersion = 0, ManifestMediaType = [],
          Config = \<lparr>Digest = ''sha256:ab'', MediaType = [], Size = 0\<rparr>,
          Layers = [\<lparr>Digest = ''sha256:ab'', MediaType = [], Size = 0\<rparr>]\<rparr>"]
  by (simp add: manifest_of_def layer_of_def)

text \<open>
  Claim C1 on the code. The run below asks for the model \<open>llama3\<close>; the manifest URL
  names \<open>llama3\<close>, and the URL line of the blob's fetch declaration (line 6 of the
  recipe, counting from 0) names \<open>mistral-nemo\<close>: the path of a blob URL is built with
  a fixed name, not with the name parsed from the flag.
\<close>

theorem blob_url_names_fixed_model:
  \<open>stdout (snd (main \<lparr>flagRegistry = ''registry.ollama.ai'', flagModel = ''llama3''\<rparr>
      (serving one_json
         (manifest_of [''sha256:b559938ab7a0392fc9ea9675b82280f2a15669ec3e0e0fc491c9cb0a7681cf94'']))
      fresh))
    = String (recipeLines ''registry.ollama.ai'' ''llama3'' ''latest''
        (manifestURL_of ''registry.ollama.ai'' ''llama3'' ''latest'') (map of_char one_json)
        [layer_of ''sha256:b559938ab7a0392fc9ea9675b82280f2a15669ec3e0e0fc491c9cb0a7681cf94''])
      @ ''\<newline>''
   \<and> recipeLines ''registry.ollama.ai'' ''llama3'' ''latest''
        (manifestURL_of ''registry.ollama.ai'' ''llama3'' ''latest'') (map of_char one_json)
        [layer_of ''sha256:b559938ab7a0392fc9ea9675b82280f2a15669ec3e0e0fc491c9cb0a7681cf94''] ! 6
     = ''    url = "https://registry.ollama.ai/v2/library/mistral-nemo/blobs/sha256:b559938ab7a0392fc9ea9675b82280f2a15669ec3e0e0fc491c9cb0a7681cf94";\<newline>''
   \<and> URL_String (manifestURL_of ''registry.ollama.ai'' ''llama3'' ''latest'')
     = ''https://registry.ollama.ai/v2/library/llama3/manifests/latest''\<close>
proof -
  let ?fl = "\<lparr>flagRegistry = ''registry.ollama.ai'', flagModel = ''llama3''\<rparr>"
  let ?d = "''sha256:b559938ab7a0392fc9ea9675b82280f2a15669ec3e0e0fc491c9cb0a7681cf94''"
  have pm: "parseModel ''llama3'' = (''llama3'', ''latest'')"
    by (rule parseModel_no_colon) simp
  have v: "\<forall>l\<in>set (Layers (manifest_of [?d])). validHex (payload (Digest l))"
    by (simp add: manifest_of_def layer_of_def validHex_def payload_def isHexDigit_def)
  have len: "length one_json \<le> 512" by (simp add: one_json_def)
  have r: "run ?fl (serving one_json (manifest_of [?d])) fresh =
      (None, (called ?fl fresh)\<lparr>stdout := stdout fresh
              @ String (recipeLines (flagRegistry ?fl) (fst (parseModel (flagModel ?fl)))
                  (snd (parseModel (flagModel ?fl))) (manifestURL_for ?fl) (map of_char one_json)
                  (Layers (manifest_of [?d])))
              @ ''\<newline>''\<rparr>)"
    by (rule run_serving_ok) (simp_all add: v len)
  have 1: "stdout (snd (main ?fl (serving one_json (manifest_of [?d])) fresh))
    = String (recipeLines ''registry.ollama.ai'' ''llama3'' ''latest''
        (manifestURL_of ''registry.ollama.ai'' ''llama3'' ''latest'') (map of_char one_json)
        [layer_of ?d]) @ ''\<newline>''"
    unfolding main_cases r
    by (simp add: pm manifestURL_for_def fresh_def manifest_of_def)
  have u: \<open>urlLine (URL_String (blobURL_of ''registry.ollama.ai'' ''mistral-nemo'' ?d))
      = ''    url = "https://registry.ollama.ai/v2/library/mistral-nemo/blobs/sha256:b559938ab7a0392fc9ea9675b82280f2a15669ec3e0e0fc491c9cb0a7681cf94";\<newline>''\<close>
    by code_simp
  have 2: \<open>recipeLines ''registry.ollama.ai'' ''llama3'' ''latest''
        (manifestURL_of ''registry.ollama.ai'' ''llama3'' ''latest'') (map of_char one_json)
        [layer_of ?d] ! 6
     = ''    url = "https://registry.ollama.ai/v2/library/mistral-nemo/blobs/sha256:b559938ab7a0392fc9ea9675b82280f2a15669ec3e0e0fc491c9cb0a7681cf94";\<newline>''\<close>
    unfolding u[symmetric]
    by (simp add: recipeLines_def recipeHead_def blobBlock_def layer_of_def)
  have 3: "URL_String (manifestURL_of ''registry.ollama.ai'' ''llama3'' ''latest'')
     = ''https://registry.ollama.ai/v2/library/llama3/manifests/latest''"
    by code_simp
  from 1 2 3 show ?thesis by simp
qed

theorem blob_url_names_fixed_model_witness:
  "recipeLines ''registry.ollama.ai'' ''llama3'' ''latest''
        (manifestURL_of ''registry.ollama.ai'' ''llama3'' ''latest'') (map of_char one_json)
        [layer_of ''sha256:b559938ab7a0392fc9ea9675b82280f2a15669ec3e0e0fc491c9cb0a7681cf94''] ! 6
     \<noteq> urlLine (URL_String (blobURL_of ''registry.ollama.ai'' ''llama3''
          ''sha256:b559938ab7a0392fc9ea9675b82280f2a15669ec3e0e0fc491c9cb0a7681cf94''))"
proof -
  have \<open>urlLine (URL_String (blobURL_of ''registry.ollama.ai'' ''llama3''
          ''sha256:b559938ab7a0392fc9ea9675b82280f2a15669ec3e0e0fc491c9cb0a7681cf94''))
     = ''    url = "https://registry.ollama.ai/v2/library/llama3/blobs/sha256:b559938ab7a0392fc9ea9675b82280f2a15669ec3e0e0fc491c9cb0a7681cf94";\<newline>''\<close>
    by code_simp
  with blob_url_names_fixed_model show ?thesis by simp
qed

end
